theory Spec2Isabelle
  imports Main "HOL-Library.Sublist" "HOL-Library.Multiset"
begin

section \<open>JavaScript values used by the draw list\<close>

text \<open>
  Owner ids are the ids of scene-graph nodes: strings, or \<open>null\<close>/\<open>undefined\<close> when a
  caller passes nothing. The default State Objects carry a negative number as \<open>_id\<close>.
  \<open>falsy_id\<close> is JavaScript's \<open>!id\<close>; \<open>key_of\<close> is the property key an id is coerced to
  when it indexes an object (\<open>typeMap[id]\<close>).
\<close>

datatype js_id = IdUndefined | IdNull | IdStr string | IdNum int

fun falsy_id :: "js_id \<Rightarrow> bool" where
  "falsy_id IdUndefined = True"
| "falsy_id IdNull = True"
| "falsy_id (IdStr s) = (s = [])"
| "falsy_id (IdNum n) = (n = 0)"

fun digit_char :: "nat \<Rightarrow> char" where
  "digit_char n = char_of (48 + n)"

fun show_nat :: "nat \<Rightarrow> string" where
  "show_nat n = (if n < 10 then [digit_char n] else show_nat (n div 10) @ [digit_char (n mod 10)])"

fun key_of :: "js_id \<Rightarrow> string" where
  "key_of IdUndefined = ''undefined''"
| "key_of IdNull = ''null''"
| "key_of (IdStr s) = s"
| "key_of (IdNum n) = (if n < 0 then CHR ''-'' # show_nat (nat (- n)) else show_nat (nat n))"

text \<open>
  Reading a JavaScript array at an index: \<open>undefined\<close> (here \<open>None\<close>) outside the array,
  also at a negative index.
\<close>

definition js_index :: "'a list \<Rightarrow> int \<Rightarrow> 'a option" where
  "js_index xs i = (if 0 \<le> i \<and> i < int (length xs) then Some (xs ! nat i) else None)"

text \<open>
  \<open>Array.prototype.join\<close>: the elements separated by \<open>sep\<close>, an \<open>undefined\<close> or \<open>null\<close>
  element contributing the empty string.
\<close>

fun js_str :: "string option \<Rightarrow> string" where
  "js_str None = []"
| "js_str (Some s) = s"

fun js_join :: "string \<Rightarrow> string option list \<Rightarrow> string" where
  "js_join sep [] = []"
| "js_join sep [x] = js_str x"
| "js_join sep (x # y # ys) = js_str x @ sep @ js_join sep (y # ys)"

text \<open>
  What a call can end with instead of returning. \<open>Inherited k\<close> is not a throw: it stands for
  a lookup \<open>m[k]\<close> in one of the module's plain objects that found a member of
  \<open>Object.prototype\<close> where the code expects an entry of its own (or for a write to
  \<open>m["__proto__"]\<close>), after which the code goes on with a built-in object of the engine in
  the place of a scene, a State Object or a program. The model follows the code no further
  there.
\<close>

datatype error = TypeError | FatalError string | Thrown string | Inherited string

text \<open>
  The members that a plain object \<open>{}\<close> inherits from \<open>Object.prototype\<close> (ECMAScript 5,
  15.2.4, and the \<open>__proto__\<close> and \<open>__defineGetter__\<close> family of the browsers): functions, with
  their \<open>length\<close>, and under \<open>"__proto__"\<close> the prototype object itself. All of them are
  truthy.
\<close>

datatype proto = ProtoFunction nat | ProtoObject

definition object_prototype :: "string \<rightharpoonup> proto" where
  "object_prototype = map_of
     [(''constructor'', ProtoFunction 1), (''toString'', ProtoFunction 0),
      (''toLocaleString'', ProtoFunction 0), (''valueOf'', ProtoFunction 0),
      (''hasOwnProperty'', ProtoFunction 1), (''isPrototypeOf'', ProtoFunction 1),
      (''propertyIsEnumerable'', ProtoFunction 1), (''__defineGetter__'', ProtoFunction 2),
      (''__defineSetter__'', ProtoFunction 2), (''__lookupGetter__'', ProtoFunction 1),
      (''__lookupSetter__'', ProtoFunction 1), (''__proto__'', ProtoObject)]"

definition bind_err :: "error + 'a \<Rightarrow> ('a \<Rightarrow> error + 'b) \<Rightarrow> error + 'b" where
  "bind_err m f = (case m of Inl e \<Rightarrow> Inl e | Inr x \<Rightarrow> f x)"

section \<open>Pick colours\<close>

text \<open>A pixel read back from a pick buffer: four bytes r, g, b, a.\<close>

type_synonym pixel = "int \<times> int \<times> int \<times> int"

text \<open>
  Modelled from the spec: the renderer (SceneJS_DrawListRenderer, not among the sources)
  colours the node drawn at index \<open>k\<close> of a pick pass with
  \<open>((k+1) mod 256, ((k+1)>>8) mod 256, ((k+1)>>16) mod 256)\<close>.
\<close>

definition pickColor :: "int \<Rightarrow> pixel" where
  "pickColor k = ((k + 1) mod 256, drop_bit 8 (k + 1) mod 256, drop_bit 16 (k + 1) mod 256, 255)"

text \<open>
  From \<open>pick\<close>:
  \<^verbatim>\<open>var pickedNodeIndex = pix[0] + pix[1] * 256 + pix[2] * 65536;\<close>
  \<^verbatim>\<open>var pickIndex = (pickedNodeIndex >= 1) ? pickedNodeIndex - 1 : -1;\<close>
\<close>

fun pickedNodeIndex :: "pixel \<Rightarrow> int" where
  "pickedNodeIndex (r, g, b, a) = r + g * 256 + b * 65536"

definition pickIndex :: "pixel \<Rightarrow> int" where
  "pickIndex pix = (if pickedNodeIndex pix \<ge> 1 then pickedNodeIndex pix - 1 else - 1)"

text \<open>
  \<^verbatim>\<open>var pickNameState = nodeRenderer.pickNameStates[pickIndex];\<close>
  followed by \<^verbatim>\<open>if (pickNameState) { hit = { name: pickNameState.name }; ... }\<close>:
  the name state that the pixel maps to, if any.
\<close>

definition pickNameState_at :: "'a list \<Rightarrow> pixel \<Rightarrow> 'a option" where
  "pickNameState_at pickNameStates pix = js_index pickNameStates (pickIndex pix)"

section \<open>State objects, display nodes, programs\<close>

text \<open>
  The state type ids \<open>_GEO = 0\<close>, \<open>_CLIPS = 1\<close>, ... \<open>_SHADER_PARAMS = 20\<close>, in the order of
  their numbers.
\<close>

datatype category =
    GEO | CLIPS | COLORTRANS | FLAGS | LAYER | FRAMEBUF | LIGHTS | MATERIAL | MORPH
  | PICKCOLOR | TEXTURE | RENDERER | MODEL_TRANSFORM | PROJ_TRANSFORM | VIEW_TRANSFORM
  | PICK_LISTENERS | NAME | TAG | RENDER_LISTENERS | SHADER | SHADER_PARAMS

datatype compile_mode = COMPILE_SCENE | COMPILE_BRANCH | COMPILE_NODES

text \<open>
  The payloads, as far as the draw list looks into them. Of a flags object the draw list
  tests \<open>flags.enabled === false\<close>, \<open>flags.picking === false\<close> and
  \<open>flags.transparent === true\<close>: \<open>fl_enabled\<close> and \<open>fl_picking\<close> are \<open>False\<close> exactly when
  the property is the boolean \<open>false\<close>, \<open>fl_transparent\<close> is \<open>True\<close> exactly when the property
  is the boolean \<open>true\<close>. Buffers, matrices, materials and the like are opaque handles;
  where the code only tests them for truthiness they are booleans.
\<close>

record flags_t =
  fl_enabled :: bool
  fl_picking :: bool
  fl_transparent :: bool

record layer_core =
  ly_priority :: int
  ly_enabled :: bool

record tag_core =
  tc_tag :: string
  tc_mask :: "string option"
  tc_matches :: bool

record light =
  lt_mode :: string
  lt_specular :: bool
  lt_diffuse :: bool

record morph_target =
  mt_vertexBuf :: bool
  mt_normalBuf :: bool
  mt_uvBuf :: bool
  mt_uvBuf2 :: bool

record tex_layer =
  tx_applyFrom :: string
  tx_applyTo :: string
  tx_blendMode :: string
  tx_matrix :: bool

record geo_t =
  g_normalBuf :: bool
  g_uvBuf :: bool
  g_uvBuf2 :: bool
  g_colorBuf :: bool
  g_primitive :: string

datatype payload =
    NoData
  | ClipsData "string list"
  | CoreData "nat option"
  | FlagsData flags_t
  | LayerData "layer_core option"
  | LightsData "light list"
  | MorphData "morph_target option"
  | TextureData "tex_layer list option"
  | GeoData geo_t
  | NameData "string option"
  | TagData "tag_core option"
  | ShaderData "string option"
  | OpaqueData "nat option list"

text \<open>
  A State Object: \<open>_id\<close>, \<open>_stateId\<close> (\<open>None\<close> is NaN, which \<open>nextStateId++\<close> yields while
  \<open>nextStateId\<close> is still undefined), \<open>_stateType\<close> (undefined on the defaults),
  \<open>_nodeCount\<close>, \<open>_default\<close>, \<open>hash\<close> (\<open>None\<close> is undefined) and the payload. State Objects
  have no property \<open>id\<close>.
\<close>

record state_obj =
  s_id :: js_id
  s_stateId :: "int option"
  s_stateType :: "category option"
  s_nodeCount :: int
  s_default :: bool
  s_hash :: "string option"
  s_data :: payload

text \<open>A shader program of the cache; the compiled render and pick shaders are left out.\<close>

record program =
  p_id :: int
  p_stateHash :: string
  p_refCount :: int

text \<open>
  A display node. \<open>n_state c\<close> is the address of the State Object in the node's field for
  category \<open>c\<close> (\<open>geoState\<close>, \<open>flagsState\<close>, ...), \<open>n_program\<close> the address of its program.
\<close>

record node =
  n_id :: js_id
  n_sortId :: int
  n_stateHash :: string
  n_program :: nat
  n_destroyed :: bool
  n_state :: "category \<Rightarrow> nat"

text \<open>
  Modelled from the spec: a pick buffer (SceneJS_PickBuffer, not among the sources) holds
  one pixel per canvas position; \<open>clear\<close> zeroes it and \<open>read\<close> returns the pixel at a
  position.
\<close>

type_synonym pickbuf = "int \<times> int \<Rightarrow> pixel"

text \<open>
  The state set of one scene (an entry of \<open>_sceneStates\<close>). Arrays are lists whose
  elements may be \<open>undefined\<close> (\<open>None\<close>); \<open>geoNodesMap\<close> maps a key to \<open>null\<close>
  (\<open>Some None\<close>) or to an array of node addresses. \<open>pickNameStates\<close> is the renderer's
  table from pick index to name state.
\<close>

record scene_state =
  canvasId :: string
  bin :: "nat option list"
  lenBin :: nat
  visibleCacheBin :: "nat option list"
  lenVisibleCacheBin :: nat
  nodeMap :: "string \<rightharpoonup> nat"
  geoNodesMap :: "string \<rightharpoonup> nat list option"
  stateMap :: "category \<rightharpoonup> (string \<rightharpoonup> nat)"
  pickCallListDirty :: bool
  pickCallFuncsDirty :: bool
  pickBufDirty :: bool
  stateSortDirty :: bool
  stateSortIDsDirty :: bool
  pickBuf :: "pickbuf option"
  pickNameStates :: "nat list"

text \<open>
  The module \<open>SceneJS_DrawList\<close>. State Objects, display nodes and programs are shared
  and mutated through references, so each kind lives in a store from addresses to
  objects, with the next free address. \<open>states\<close> is \<open>this._states\<close> (the id of the bound
  scene); \<open>mapsOf\<close> is the scene whose \<open>nodeMap\<close> and \<open>stateMap\<close> the aliases
  \<open>this._nodeMap\<close> and \<open>this._stateMap\<close> point to: \<open>bindScene\<close> alone assigns them, always
  to the maps of the scene it binds, and \<open>renderFrame\<close> does not clear them. \<open>soup\<close> holds
  the variables \<open>geoState\<close>, \<open>clipState\<close>, ..., undefined until first assigned.
  \<open>shaderFails\<close> says for which state hashes the GPU refuses the composed shaders.
\<close>

record drawlist =
  programs :: "string \<rightharpoonup> nat"
  progHeap :: "nat \<Rightarrow> program"
  progNext :: nat
  nextProgramId :: int
  sceneStates :: "string \<rightharpoonup> scene_state"
  states :: "string option"
  mapsOf :: "string option"
  nextStateId :: "int option"
  compileMode :: "compile_mode option"
  soup :: "category \<Rightarrow> nat option"
  stateHash :: "string option"
  stHeap :: "nat \<Rightarrow> state_obj"
  stNext :: nat
  nodeHeap :: "nat \<Rightarrow> node"
  nodeNext :: nat
  shaderFails :: "string \<Rightarrow> bool"

subsection \<open>Default states\<close>

text \<open>
  \<open>createState\<close> numbers the defaults -1, -2, ... in the order of their creation; the
  default of a category lives at the address \<open>default_addr\<close>. There is no default geometry.
\<close>

fun default_addr :: "category \<Rightarrow> nat" where
  "default_addr CLIPS = 0"
| "default_addr COLORTRANS = 1"
| "default_addr FLAGS = 2"
| "default_addr LAYER = 3"
| "default_addr FRAMEBUF = 4"
| "default_addr LIGHTS = 5"
| "default_addr MATERIAL = 6"
| "default_addr MORPH = 7"
| "default_addr PICKCOLOR = 8"
| "default_addr PICK_LISTENERS = 9"
| "default_addr NAME = 10"
| "default_addr TAG = 11"
| "default_addr TEXTURE = 12"
| "default_addr RENDERER = 13"
| "default_addr MODEL_TRANSFORM = 14"
| "default_addr PROJ_TRANSFORM = 15"
| "default_addr VIEW_TRANSFORM = 16"
| "default_addr RENDER_LISTENERS = 17"
| "default_addr SHADER = 18"
| "default_addr SHADER_PARAMS = 19"

definition DEFAULT_FLAGS :: flags_t where
  "DEFAULT_FLAGS = \<lparr>fl_enabled = True, fl_picking = True, fl_transparent = False\<rparr>"

fun default_hash :: "category \<Rightarrow> string option" where
  "default_hash CLIPS = Some []"
| "default_hash COLORTRANS = Some ''f''"
| "default_hash LIGHTS = Some []"
| "default_hash MORPH = Some []"
| "default_hash PICKCOLOR = Some []"
| "default_hash TEXTURE = Some []"
| "default_hash SHADER = Some []"
| "default_hash c = None"

fun default_data :: "category \<Rightarrow> payload" where
  "default_data CLIPS = ClipsData []"
| "default_data COLORTRANS = CoreData None"
| "default_data FLAGS = FlagsData DEFAULT_FLAGS"
| "default_data LAYER = LayerData (Some \<lparr>ly_priority = 0, ly_enabled = True\<rparr>)"
| "default_data LIGHTS = LightsData []"
| "default_data MORPH = MorphData None"
| "default_data NAME = NameData None"
| "default_data TAG = TagData None"
| "default_data TEXTURE = TextureData None"
| "default_data SHADER = ShaderData (Some [])"
| "default_data c = OpaqueData []"

definition createState :: "category \<Rightarrow> state_obj" where
  "createState c =
     \<lparr>s_id = IdNum (- int (default_addr c) - 1), s_stateId = Some (- int (default_addr c) - 1),
      s_stateType = None, s_nodeCount = 0, s_default = True,
      s_hash = default_hash c, s_data = default_data c\<rparr>"

definition default_cats :: "category list" where
  "default_cats = [CLIPS, COLORTRANS, FLAGS, LAYER, FRAMEBUF, LIGHTS, MATERIAL, MORPH,
     PICKCOLOR, PICK_LISTENERS, NAME, TAG, TEXTURE, RENDERER, MODEL_TRANSFORM,
     PROJ_TRANSFORM, VIEW_TRANSFORM, RENDER_LISTENERS, SHADER, SHADER_PARAMS]"

definition null_state :: state_obj where
  "null_state = \<lparr>s_id = IdUndefined, s_stateId = None, s_stateType = None, s_nodeCount = 0,
     s_default = False, s_hash = None, s_data = NoData\<rparr>"

definition null_node :: node where
  "null_node = \<lparr>n_id = IdUndefined, n_sortId = 0, n_stateHash = [], n_program = 0,
     n_destroyed = False, n_state = (\<lambda>c. 0)\<rparr>"

text \<open>The module after loading: the defaults exist, nothing else does.\<close>

definition init_drawlist :: "(string \<Rightarrow> bool) \<Rightarrow> drawlist" where
  "init_drawlist fails =
     \<lparr>programs = Map.empty,
      progHeap = (\<lambda>a. \<lparr>p_id = 0, p_stateHash = [], p_refCount = 0\<rparr>),
      progNext = 0, nextProgramId = 0,
      sceneStates = Map.empty, states = None, mapsOf = None, nextStateId = None,
      compileMode = None, soup = (\<lambda>c. None), stateHash = None,
      stHeap = fold (\<lambda>c h. h(default_addr c := createState c)) default_cats (\<lambda>a. null_state),
      stNext = 20,
      nodeHeap = (\<lambda>a. null_node), nodeNext = 0,
      shaderFails = fails\<rparr>"

text \<open>
  The listener for \<open>SCENE_CREATED\<close>: a fresh state set, unless \<open>_sceneStates[sceneId]\<close> is
  truthy, which it is when the scene has one and when the id names an inherited member.
\<close>

definition sceneCreated :: "string \<Rightarrow> string \<Rightarrow> drawlist \<Rightarrow> drawlist" where
  "sceneCreated sceneId canvas s =
     (case sceneStates s sceneId of
        Some sc \<Rightarrow> s
      | None \<Rightarrow>
          if object_prototype sceneId \<noteq> None then s
          else s\<lparr>sceneStates := (sceneStates s)(sceneId \<mapsto>
          \<lparr>canvasId = canvas, bin = [], lenBin = 0, visibleCacheBin = [],
           lenVisibleCacheBin = 0, nodeMap = Map.empty, geoNodesMap = Map.empty,
           stateMap = Map.empty, pickCallListDirty = True, pickCallFuncsDirty = False,
           pickBufDirty = True, stateSortDirty = False, stateSortIDsDirty = False,
           pickBuf = None, pickNameStates = []\<rparr>)\<rparr>)"

section \<open>Binding a scene\<close>

definition forceStateSort :: "bool \<Rightarrow> scene_state \<Rightarrow> scene_state" where
  "forceStateSort rebuildSortIDs sc =
     (if rebuildSortIDs then sc\<lparr>stateSortIDsDirty := True\<rparr> else sc)\<lparr>stateSortDirty := True\<rparr>"

text \<open>The soup variables that \<open>bindScene\<close> points at the defaults: all but \<open>geoState\<close>.\<close>

definition soup_defaults :: "category list" where
  "soup_defaults = [CLIPS, COLORTRANS, FLAGS, LAYER, FRAMEBUF, LIGHTS, MATERIAL, MORPH,
     PICKCOLOR, RENDERER, TEXTURE, MODEL_TRANSFORM, PROJ_TRANSFORM, VIEW_TRANSFORM, NAME,
     TAG, RENDER_LISTENERS, SHADER, SHADER_PARAMS]"

text \<open>
  \<open>bindScene(params, options)\<close> with \<open>params.sceneId\<close>, \<open>options.compileMode\<close> and
  \<open>options.resort\<close>. An unknown scene makes \<open>this._states\<close> undefined, and reading its
  \<open>nodeMap\<close> throws; a scene id that names an inherited member makes \<open>this._states\<close> that
  member.
\<close>

definition bindScene :: "string \<Rightarrow> compile_mode option \<Rightarrow> bool \<Rightarrow> drawlist \<Rightarrow> error + drawlist" where
  "bindScene sceneId mode resort s =
     (case sceneStates s sceneId of
        None \<Rightarrow> if object_prototype sceneId \<noteq> None then Inl (Inherited sceneId) else Inl TypeError
      | Some sc \<Rightarrow>
          let s1 = s\<lparr>states := Some sceneId, mapsOf := Some sceneId, stateHash := None\<rparr>;
              s2 = (if mode = Some COMPILE_SCENE \<or> mode = Some COMPILE_BRANCH
                    then s1\<lparr>soup := (\<lambda>c. if List.member soup_defaults c
                                               then Some (default_addr c) else soup s1 c)\<rparr>
                    else s1);
              sc1 = (if mode = Some COMPILE_SCENE \<or> mode = Some COMPILE_BRANCH
                     then forceStateSort True sc else sc);
              sc2 = (if mode = Some COMPILE_SCENE
                     then sc1\<lparr>lenBin := 0, nodeMap := Map.empty, stateMap := Map.empty,
                              geoNodesMap := Map.empty\<rparr>
                     else sc1);
              s3 = (if mode = Some COMPILE_SCENE then s2\<lparr>nextStateId := Some 0\<rparr> else s2);
              sc3 = (if mode = Some COMPILE_NODES \<and> resort then forceStateSort True sc2 else sc2)
          in Inr (s3\<lparr>sceneStates := (sceneStates s3)(sceneId \<mapsto> sc3), compileMode := mode\<rparr>))"

section \<open>State setting\<close>

definition fresh_state :: "category \<Rightarrow> js_id \<Rightarrow> drawlist \<Rightarrow> state_obj" where
  "fresh_state stateType ident s =
     \<lparr>s_id = ident, s_stateId = nextStateId s, s_stateType = Some stateType, s_nodeCount = 0,
      s_default = False, s_hash = None, s_data = NoData\<rparr>"

text \<open>
  Allocating \<open>{_id: id, _stateId: nextStateId++, _stateType: stateType, _nodeCount: 0}\<close>.
\<close>

definition alloc_state :: "category \<Rightarrow> js_id \<Rightarrow> drawlist \<Rightarrow> nat \<times> drawlist" where
  "alloc_state stateType ident s =
     (stNext s,
      s\<lparr>stHeap := (stHeap s)(stNext s := fresh_state stateType ident s),
        stNext := Suc (stNext s),
        nextStateId := map_option (\<lambda>n. n + 1) (nextStateId s)\<rparr>)"

definition set_typeMap :: "string \<Rightarrow> scene_state \<Rightarrow> category \<Rightarrow> (string \<rightharpoonup> nat) \<Rightarrow> drawlist \<Rightarrow> drawlist" where
  "set_typeMap sid sc stateType typeMap s =
     s\<lparr>sceneStates := (sceneStates s)(sid \<mapsto> sc\<lparr>stateMap := (stateMap sc)(stateType \<mapsto> typeMap)\<rparr>)\<rparr>"

text \<open>
  \<open>_getState(stateType, id)\<close>: the address of the state found or created. Reading
  \<open>this._stateMap[stateType]\<close> throws while no scene has ever been bound. The type map is a
  plain object: outside a full compilation \<open>typeMap[id]\<close> finds an inherited member when the
  id names one and the map has no entry of its own for it, and the code takes that member
  for the state; writing \<open>typeMap["__proto__"]\<close> replaces the prototype of the map.
\<close>

definition getState :: "category \<Rightarrow> js_id \<Rightarrow> drawlist \<Rightarrow> error + (nat \<times> drawlist)" where
  "getState stateType ident s =
     (case mapsOf s of
        None \<Rightarrow> Inl TypeError
      | Some sid \<Rightarrow>
         (case sceneStates s sid of
            None \<Rightarrow> Inl TypeError
          | Some sc \<Rightarrow>
              let typeMap = (case stateMap sc stateType of None \<Rightarrow> Map.empty | Some m \<Rightarrow> m)
              in if compileMode s \<noteq> Some COMPILE_SCENE then
                   (case typeMap (key_of ident) of
                      Some a \<Rightarrow> Inr (a, set_typeMap sid sc stateType typeMap s)
                    | None \<Rightarrow>
                        if object_prototype (key_of ident) \<noteq> None
                        then Inl (Inherited (key_of ident))
                        else
                          let (a, s1) = alloc_state stateType ident s
                          in Inr (a, set_typeMap sid sc stateType (typeMap(key_of ident \<mapsto> a)) s1))
                 else
                   (let (a, s1) = alloc_state stateType ident s
                    in if \<not> falsy_id ident
                       then if object_prototype (key_of ident) = Some ProtoObject
                            then Inl (Inherited (key_of ident))
                            else Inr (a, set_typeMap sid sc stateType (typeMap(key_of ident \<mapsto> a)) s1)
                       else Inr (a, set_typeMap sid sc stateType typeMap s1))))"

text \<open>
  \<open>_releaseState(state)\<close>. The eviction is \<open>delete typeMap[state.id]\<close>; a State Object has
  \<open>_id\<close> but no \<open>id\<close>, so \<open>state.id\<close> is undefined and the key deleted is \<open>"undefined"\<close>.
\<close>

definition releaseState :: "nat \<Rightarrow> drawlist \<Rightarrow> error + drawlist" where
  "releaseState a s =
     (let st = stHeap s a in
      case s_stateType st of
        None \<Rightarrow> Inr s
      | Some stateType \<Rightarrow>
          if s_nodeCount st \<le> 0 then Inr s
          else
            let s1 = s\<lparr>stHeap := (stHeap s)(a := st\<lparr>s_nodeCount := s_nodeCount st - 1\<rparr>)\<rparr>
            in if s_nodeCount st - 1 = 0 then
                 (case mapsOf s1 of
                    None \<Rightarrow> Inl TypeError
                  | Some sid \<Rightarrow>
                     (case sceneStates s1 sid of
                        None \<Rightarrow> Inl TypeError
                      | Some sc \<Rightarrow>
                         (case stateMap sc stateType of
                            None \<Rightarrow> Inr s1
                          | Some typeMap \<Rightarrow>
                              Inr (set_typeMap sid sc stateType
                                     (typeMap(key_of IdUndefined := None)) s1))))
               else Inr s1)"

definition updState :: "nat \<Rightarrow> (state_obj \<Rightarrow> state_obj) \<Rightarrow> drawlist \<Rightarrow> drawlist" where
  "updState a f s = s\<lparr>stHeap := (stHeap s)(a := f (stHeap s a))\<rparr>"

definition setSoup :: "category \<Rightarrow> nat \<Rightarrow> drawlist \<Rightarrow> drawlist" where
  "setSoup c a s = s\<lparr>soup := (soup s)(c \<mapsto> a)\<rparr>"

definition tf :: "bool \<Rightarrow> string" where
  "tf b = (if b then ''t'' else ''f'')"

text \<open>
  A setter is called with no argument at all (\<open>None\<close>, \<open>arguments.length == 0\<close>) or with an
  id and possibly a payload (an argument left out or undefined is \<open>None\<close>).
\<close>

type_synonym 'p args = "(js_id \<times> 'p option) option"

definition arg_id :: "'p args \<Rightarrow> js_id" where
  "arg_id args = (case args of None \<Rightarrow> IdUndefined | Some (i, p) \<Rightarrow> i)"

definition arg_payload :: "'p args \<Rightarrow> 'p option" where
  "arg_payload args = (case args of None \<Rightarrow> None | Some (i, p) \<Rightarrow> p)"

definition clips_hash :: "string list \<Rightarrow> string" where
  "clips_hash clips = (if length clips > 0 then concat clips else [])"

definition setClips :: "string list args \<Rightarrow> drawlist \<Rightarrow> error + drawlist" where
  "setClips args s =
     (if falsy_id (arg_id args)
      then Inr ((setSoup CLIPS (default_addr CLIPS) s)\<lparr>stateHash := None\<rparr>)
      else bind_err (getState CLIPS (arg_id args) s) (\<lambda>(a, s1).
        let clips = (case arg_payload args of None \<Rightarrow> [] | Some c \<Rightarrow> c);
            s2 = setSoup CLIPS a s1;
            s3 = (if compileMode s2 = Some COMPILE_SCENE
                  then (updState a (\<lambda>st. st\<lparr>s_hash := Some (clips_hash clips)\<rparr>) s2)
                         \<lparr>stateHash := None\<rparr>
                  else s2)
        in Inr (updState a (\<lambda>st. st\<lparr>s_data := ClipsData clips\<rparr>) s3)))"

definition setColortrans :: "nat args \<Rightarrow> drawlist \<Rightarrow> error + drawlist" where
  "setColortrans args s =
     (if falsy_id (arg_id args)
      then Inr ((setSoup COLORTRANS (default_addr COLORTRANS) s)\<lparr>stateHash := None\<rparr>)
      else bind_err (getState COLORTRANS (arg_id args) s) (\<lambda>(a, s1).
        let core = arg_payload args;
            s2 = updState a (\<lambda>st. st\<lparr>s_data := CoreData core\<rparr>) (setSoup COLORTRANS a s1)
        in Inr (if compileMode s2 = Some COMPILE_SCENE
                then (updState a (\<lambda>st. st\<lparr>s_hash := Some (tf (core \<noteq> None))\<rparr>) s2)
                       \<lparr>stateHash := None\<rparr>
                else s2)))"

text \<open>
  The setters that only store a payload: \<open>arguments.length == 0\<close> points the soup variable
  at the default, anything else (also a null id) goes through \<open>_getState\<close>.
\<close>

definition setPlain :: "category \<Rightarrow> ('p option \<Rightarrow> payload) \<Rightarrow> 'p args \<Rightarrow> drawlist \<Rightarrow> error + drawlist" where
  "setPlain c mk args s =
     (case args of
        None \<Rightarrow> Inr (setSoup c (default_addr c) s)
      | Some (ident, p) \<Rightarrow>
          bind_err (getState c ident s) (\<lambda>(a, s1).
            Inr (updState a (\<lambda>st. st\<lparr>s_data := mk p\<rparr>) (setSoup c a s1))))"

definition setFlags :: "flags_t args \<Rightarrow> drawlist \<Rightarrow> error + drawlist" where
  "setFlags = setPlain FLAGS (\<lambda>p. FlagsData (case p of None \<Rightarrow> DEFAULT_FLAGS | Some f \<Rightarrow> f))"

definition setLayer :: "layer_core args \<Rightarrow> drawlist \<Rightarrow> error + drawlist" where
  "setLayer = setPlain LAYER LayerData"

definition setFrameBuf :: "nat args \<Rightarrow> drawlist \<Rightarrow> error + drawlist" where
  "setFrameBuf = setPlain FRAMEBUF (\<lambda>p. OpaqueData [p])"

definition setMaterial :: "nat args \<Rightarrow> drawlist \<Rightarrow> error + drawlist" where
  "setMaterial = setPlain MATERIAL (\<lambda>p. OpaqueData [p])"

definition setModelTransform :: "(nat option \<times> nat option) args \<Rightarrow> drawlist \<Rightarrow> error + drawlist" where
  "setModelTransform = setPlain MODEL_TRANSFORM
     (\<lambda>p. case p of None \<Rightarrow> OpaqueData [None, None] | Some (mat, normalMat) \<Rightarrow> OpaqueData [mat, normalMat])"

definition setViewTransform :: "(nat option \<times> nat option \<times> nat option) args \<Rightarrow> drawlist \<Rightarrow> error + drawlist" where
  "setViewTransform = setPlain VIEW_TRANSFORM
     (\<lambda>p. case p of None \<Rightarrow> OpaqueData [None, None, None]
          | Some (mat, normalMat, lookAt) \<Rightarrow> OpaqueData [mat, normalMat, lookAt])"

definition setName :: "string args \<Rightarrow> drawlist \<Rightarrow> error + drawlist" where
  "setName = setPlain NAME NameData"

definition setTag :: "tag_core args \<Rightarrow> drawlist \<Rightarrow> error + drawlist" where
  "setTag = setPlain TAG TagData"

definition setRenderListeners :: "nat args \<Rightarrow> drawlist \<Rightarrow> error + drawlist" where
  "setRenderListeners = setPlain RENDER_LISTENERS (\<lambda>p. OpaqueData [p])"

definition setShaderParams :: "nat args \<Rightarrow> drawlist \<Rightarrow> error + drawlist" where
  "setShaderParams = setPlain SHADER_PARAMS (\<lambda>p. OpaqueData [p])"

text \<open>\<open>setProjectionTransform\<close> reads \<open>transform.matrixAsArray\<close>, which throws without a transform.\<close>

definition setProjectionTransform :: "(nat option \<times> nat option) args \<Rightarrow> drawlist \<Rightarrow> error + drawlist" where
  "setProjectionTransform args s =
     (case args of
        None \<Rightarrow> Inr (setSoup PROJ_TRANSFORM (default_addr PROJ_TRANSFORM) s)
      | Some (ident, p) \<Rightarrow>
          bind_err (getState PROJ_TRANSFORM ident s) (\<lambda>(a, s1).
            case p of
              None \<Rightarrow> Inl TypeError
            | Some (mat, optics) \<Rightarrow>
                Inr (updState a (\<lambda>st. st\<lparr>s_data := OpaqueData [mat, optics]\<rparr>)
                       (setSoup PROJ_TRANSFORM a s1))))"

definition lights_hash :: "light list \<Rightarrow> string" where
  "lights_hash lights =
     concat (map (\<lambda>l. lt_mode l @ (if lt_specular l then ''s'' else [])
                        @ (if lt_diffuse l then ''d'' else [])) lights)"

definition setLights :: "light list args \<Rightarrow> drawlist \<Rightarrow> error + drawlist" where
  "setLights args s =
     (case args of
        None \<Rightarrow> Inr ((setSoup LIGHTS (default_addr LIGHTS) s)\<lparr>stateHash := None\<rparr>)
      | Some (ident, p) \<Rightarrow>
          bind_err (getState LIGHTS ident s) (\<lambda>(a, s1).
            let lights = (case p of None \<Rightarrow> [] | Some l \<Rightarrow> l);
                s2 = setSoup LIGHTS a s1;
                s3 = (if compileMode s2 = Some COMPILE_SCENE
                      then (updState a (\<lambda>st. st\<lparr>s_hash := Some (lights_hash lights)\<rparr>) s2)
                             \<lparr>stateHash := None\<rparr>
                      else s2)
            in Inr (updState a (\<lambda>st. st\<lparr>s_data := LightsData lights\<rparr>) s3)))"

definition morph_hash :: "morph_target option \<Rightarrow> string" where
  "morph_hash morph =
     (case morph of
        Some target0 \<Rightarrow> tf (mt_vertexBuf target0) @ tf (mt_normalBuf target0)
                          @ tf (mt_uvBuf target0) @ tf (mt_uvBuf2 target0)
      | None \<Rightarrow> [])"

definition setMorph :: "morph_target args \<Rightarrow> drawlist \<Rightarrow> error + drawlist" where
  "setMorph args s =
     (case args of
        None \<Rightarrow> Inr ((setSoup MORPH (default_addr MORPH) s)\<lparr>stateHash := None\<rparr>)
      | Some (ident, morph) \<Rightarrow>
          bind_err (getState MORPH ident s) (\<lambda>(a, s1).
            let s2 = setSoup MORPH a s1;
                s3 = (if compileMode s2 = Some COMPILE_SCENE
                      then (updState a (\<lambda>st. st\<lparr>s_hash := Some (morph_hash morph)\<rparr>) s2)
                             \<lparr>stateHash := None\<rparr>
                      else s2)
            in Inr (updState a (\<lambda>st. st\<lparr>s_data := MorphData morph\<rparr>) s3)))"

definition texture_hash :: "tex_layer list option \<Rightarrow> string" where
  "texture_hash core =
     (case core of
        None \<Rightarrow> ''__scenejs_no_tex''
      | Some layers \<Rightarrow>
          if length layers > 0
          then concat (map (\<lambda>layer. ''/'' @ tx_applyFrom layer @ ''/'' @ tx_applyTo layer @ ''/''
                  @ tx_blendMode layer @ (if tx_matrix layer then ''/anim'' else [])) layers)
          else ''__scenejs_no_tex'')"

definition setTexture :: "tex_layer list args \<Rightarrow> drawlist \<Rightarrow> error + drawlist" where
  "setTexture args s =
     (case args of
        None \<Rightarrow> Inr ((setSoup TEXTURE (default_addr TEXTURE) s)\<lparr>stateHash := None\<rparr>)
      | Some (ident, core) \<Rightarrow>
          bind_err (getState TEXTURE ident s) (\<lambda>(a, s1).
            let s2 = setSoup TEXTURE a s1;
                s3 = (if compileMode s2 = Some COMPILE_SCENE
                      then (updState a (\<lambda>st. st\<lparr>s_hash := Some (texture_hash core)\<rparr>) s2)
                             \<lparr>stateHash := None\<rparr>
                      else s2)
            in Inr (updState a (\<lambda>st. st\<lparr>s_data := TextureData core\<rparr>) s3)))"

definition setRenderer :: "nat args \<Rightarrow> drawlist \<Rightarrow> error + drawlist" where
  "setRenderer args s =
     (case args of
        None \<Rightarrow> Inr (setSoup RENDERER (default_addr RENDERER) s)
      | Some (ident, props) \<Rightarrow>
          bind_err (getState RENDERER ident s) (\<lambda>(a, s1).
            Inr ((updState a (\<lambda>st. st\<lparr>s_data := OpaqueData [props]\<rparr>) (setSoup RENDERER a s1))
                   \<lparr>stateHash := None\<rparr>)))"

text \<open>
  \<open>setShader(id, shader)\<close>: the payload is the shader's \<open>hash\<close> property (\<open>None\<close> when it has
  none); reading it throws when no shader is given.
\<close>

definition setShader :: "string option args \<Rightarrow> drawlist \<Rightarrow> error + drawlist" where
  "setShader args s =
     (case args of
        None \<Rightarrow> Inr ((setSoup SHADER (default_addr SHADER) s)\<lparr>stateHash := None\<rparr>)
      | Some (ident, p) \<Rightarrow>
          bind_err (getState SHADER ident s) (\<lambda>(a, s1).
            case p of
              None \<Rightarrow> Inl TypeError
            | Some h \<Rightarrow>
                Inr ((updState a (\<lambda>st. st\<lparr>s_data := ShaderData h, s_hash := h\<rparr>)
                        (setSoup SHADER a s1))\<lparr>stateHash := None\<rparr>)))"

section \<open>Programs\<close>

text \<open>
  \<open>_getSceneHash\<close>: the join, with \<open>";"\<close>, of the canvas id and the \<open>hash\<close> properties of
  \<open>clipState\<close>, \<open>colortransState\<close>, \<open>lightState\<close>, \<open>morphState\<close>, \<open>texState\<close>,
  \<open>shaderState\<close>, \<open>rendererState\<close>, \<open>geoState\<close>. It throws when no scene is bound or one
  of these variables is undefined.
\<close>

definition soup_hash :: "drawlist \<Rightarrow> category \<Rightarrow> string option option" where
  "soup_hash s c = (case soup s c of None \<Rightarrow> None | Some a \<Rightarrow> Some (s_hash (stHeap s a)))"

definition getSceneHash :: "drawlist \<Rightarrow> error + string" where
  "getSceneHash s =
     (case states s of
        None \<Rightarrow> Inl TypeError
      | Some sid \<Rightarrow>
         (case sceneStates s sid of
            None \<Rightarrow> Inl TypeError
          | Some sc \<Rightarrow>
             (case those (map (soup_hash s)
                     [CLIPS, COLORTRANS, LIGHTS, MORPH, TEXTURE, SHADER, RENDERER, GEO]) of
                None \<Rightarrow> Inl TypeError
              | Some hs \<Rightarrow> Inr (js_join '';'' (Some (canvasId sc) # hs)))))"

text \<open>
  \<open>_getProgram(stateHash)\<close>: the address of the program cached under the hash, created on
  a miss (\<open>_createShader\<close> throws a fatal error when the GPU refuses the shaders), with its
  reference count incremented. \<open>_programs\<close> is a plain object too; a scene hash holds
  semicolons and names no inherited member.
\<close>

definition getProgram :: "string \<Rightarrow> drawlist \<Rightarrow> error + (nat \<times> drawlist)" where
  "getProgram h s =
     (case programs s h of
        Some a \<Rightarrow>
          Inr (a, s\<lparr>progHeap := (progHeap s)
                      (a := (progHeap s a)\<lparr>p_refCount := p_refCount (progHeap s a) + 1\<rparr>)\<rparr>)
      | None \<Rightarrow>
          if object_prototype h \<noteq> None then Inl (Inherited h)
          else if shaderFails s h then Inl (FatalError ''Failed to create SceneJS Shader'')
          else
            let a = progNext s
            in Inr (a, s\<lparr>programs := (programs s)(h \<mapsto> a),
                         progHeap := (progHeap s)
                           (a := \<lparr>p_id = nextProgramId s, p_stateHash = h, p_refCount = 0 + 1\<rparr>),
                         progNext := Suc a,
                         nextProgramId := nextProgramId s + 1\<rparr>))"

text \<open>\<open>_releaseProgram(program)\<close> decrements the count; the deallocation is commented out.\<close>

definition releaseProgram :: "nat \<Rightarrow> drawlist \<Rightarrow> drawlist" where
  "releaseProgram a s =
     s\<lparr>progHeap := (progHeap s)(a := (progHeap s a)\<lparr>p_refCount := p_refCount (progHeap s a) - 1\<rparr>)\<rparr>"

section \<open>Display nodes\<close>

text \<open>
  The state fields of a display node, in the order in which \<open>setGeometry\<close> increments their
  counts and \<open>removeGeometry\<close> releases them.
\<close>

definition node_cats :: "category list" where
  "node_cats = [GEO, FLAGS, LAYER, RENDERER, LIGHTS, COLORTRANS, MATERIAL, MODEL_TRANSFORM,
     VIEW_TRANSFORM, PROJ_TRANSFORM, TEXTURE, PICKCOLOR, FRAMEBUF, CLIPS, MORPH, NAME, TAG,
     RENDER_LISTENERS, SHADER, SHADER_PARAMS]"

definition incCount :: "nat \<Rightarrow> drawlist \<Rightarrow> drawlist" where
  "incCount a s = updState a (\<lambda>st. st\<lparr>s_nodeCount := s_nodeCount st + 1\<rparr>) s"

fun incCounts :: "category list \<Rightarrow> drawlist \<Rightarrow> error + drawlist" where
  "incCounts [] s = Inr s"
| "incCounts (c # cs) s =
     (case soup s c of None \<Rightarrow> Inl TypeError | Some a \<Rightarrow> incCounts cs (incCount a s))"

text \<open>Writing \<open>xs[i] = v\<close> into a JavaScript array, which grows if it has to.\<close>

definition js_array_set :: "'a option list \<Rightarrow> nat \<Rightarrow> 'a option \<Rightarrow> 'a option list" where
  "js_array_set xs i v =
     (if i < length xs then xs[i := v] else xs @ replicate (i - length xs) None @ [v])"

definition js_get :: "'a option list \<Rightarrow> nat \<Rightarrow> 'a option" where
  "js_get xs i = (if i < length xs then xs ! i else None)"

text \<open>\<open>a != b\<close> on state ids: NaN differs from everything.\<close>

definition stateId_neq :: "int option \<Rightarrow> int option \<Rightarrow> bool" where
  "stateId_neq a b = (case (a, b) of (Some x, Some y) \<Rightarrow> x \<noteq> y | _ \<Rightarrow> True)"

text \<open>
  The reattachment of one state field under partial recompilation:
  \<^verbatim>\<open>if (node.xState._stateId != xState._stateId) { this._releaseState(node.xState);\<close>
  \<^verbatim>\<open>    node.xState = xState; xState._nodeCount++; }\<close>
\<close>

definition reattach :: "category \<Rightarrow> nat \<Rightarrow> drawlist \<Rightarrow> error + drawlist" where
  "reattach c n s =
     (case soup s c of
        None \<Rightarrow> Inl TypeError
      | Some a \<Rightarrow>
          if stateId_neq (s_stateId (stHeap s (n_state (nodeHeap s n) c))) (s_stateId (stHeap s a))
          then bind_err (releaseState (n_state (nodeHeap s n) c) s) (\<lambda>s1.
                 Inr (incCount a
                   (s1\<lparr>nodeHeap := (nodeHeap s1)
                        (n := (nodeHeap s1 n)\<lparr>n_state := (n_state (nodeHeap s1 n))(c := a)\<rparr>)\<rparr>)))
          else Inr s)"

definition geo_hash :: "geo_t \<Rightarrow> string" where
  "geo_hash geo = tf (g_normalBuf geo) @ tf (g_uvBuf geo) @ tf (g_uvBuf2 geo)
                    @ tf (g_colorBuf geo) @ g_primitive geo"

text \<open>The node that \<open>setGeometry\<close> builds from the soup, and its registration in the scene.\<close>

definition new_node :: "js_id \<Rightarrow> string \<Rightarrow> nat \<Rightarrow> drawlist \<Rightarrow> node" where
  "new_node ident h program s =
     \<lparr>n_id = ident, n_sortId = 0, n_stateHash = h, n_program = program, n_destroyed = False,
      n_state = (\<lambda>c. case soup s c of Some a \<Rightarrow> a | None \<Rightarrow> 0)\<rparr>"

definition register_node :: "js_id \<Rightarrow> nat \<Rightarrow> scene_state \<Rightarrow> scene_state" where
  "register_node ident n sc =
     sc\<lparr>nodeMap := (nodeMap sc)(key_of ident \<mapsto> n),
        bin := js_array_set (bin sc) (lenBin sc) (Some n),
        lenBin := Suc (lenBin sc),
        geoNodesMap := (geoNodesMap sc)(key_of ident \<mapsto>
          Some ((case geoNodesMap sc (key_of ident) of
                   Some (Some nodes) \<Rightarrow> nodes | _ \<Rightarrow> []) @ [n]))\<rparr>"

text \<open>
  \<open>setGeometry(id, geo)\<close>. \<open>marshallStates\<close> fires \<open>SCENE_RENDERING\<close>, on which the other
  modules call the setters above for state they have not exported yet; here those calls
  are the caller's, made before \<open>setGeometry\<close>.
\<close>

text \<open>
  The second half of \<open>setGeometry\<close> under full recompilation, once the scene hash \<open>h\<close> is
  known: the program, the counts, the node and its registration. Where \<open>geoNodesMap[id]\<close>
  finds an inherited member, that member is truthy and has no \<open>push\<close>, and the call throws
  at the very end.
\<close>

definition attachNode :: "js_id \<Rightarrow> string \<Rightarrow> drawlist \<Rightarrow> error + drawlist" where
  "attachNode ident h s =
     bind_err (getProgram h (s\<lparr>stateHash := Some h\<rparr>)) (\<lambda>(program, s3).
       bind_err (incCounts node_cats s3) (\<lambda>s4.
         (case states s4 of
            None \<Rightarrow> Inl TypeError
          | Some sid \<Rightarrow>
             (case sceneStates s4 sid of
                None \<Rightarrow> Inl TypeError
              | Some sc \<Rightarrow>
                  if geoNodesMap sc (key_of ident) = None \<and> object_prototype (key_of ident) \<noteq> None
                  then Inl TypeError
                  else
                    Inr (s4\<lparr>nodeHeap := (nodeHeap s4)
                              (nodeNext s4 := new_node ident h program s4),
                            nodeNext := Suc (nodeNext s4),
                            sceneStates := (sceneStates s4)
                              (sid \<mapsto> register_node ident (nodeNext s4) sc)\<rparr>)))))"

definition setGeometry :: "js_id \<Rightarrow> geo_t \<Rightarrow> drawlist \<Rightarrow> error + drawlist" where
  "setGeometry ident geo s =
     (if compileMode s \<noteq> Some COMPILE_SCENE then
        (case mapsOf s of
           None \<Rightarrow> Inl TypeError
         | Some sid \<Rightarrow>
            (case sceneStates s sid of
               None \<Rightarrow> Inl TypeError
             | Some sc \<Rightarrow>
                (case nodeMap sc (key_of ident) of
                   None \<Rightarrow> Inl TypeError
                 | Some n \<Rightarrow> bind_err (reattach RENDER_LISTENERS n s) (reattach FLAGS n))))
      else
        (let oldGeoHash = (case soup s GEO of None \<Rightarrow> None | Some g \<Rightarrow> s_hash (stHeap s g))
         in bind_err (getState GEO ident s) (\<lambda>(g, s1).
           let s2 = updState g (\<lambda>st. st\<lparr>s_data := GeoData geo, s_hash := Some (geo_hash geo)\<rparr>)
                      (setSoup GEO g s1);
               stale = (case stateHash s2 of
                          None \<Rightarrow> True
                        | Some h \<Rightarrow> h = [] \<or> oldGeoHash \<noteq> Some (geo_hash geo))
           in bind_err (if stale then getSceneHash s2 else Inr (js_str (stateHash s2)))
                (\<lambda>h. attachNode ident h s2))))"

fun releaseStates :: "nat list \<Rightarrow> drawlist \<Rightarrow> error + drawlist" where
  "releaseStates [] s = Inr s"
| "releaseStates (a # as) s = bind_err (releaseState a s) (releaseStates as)"

text \<open>The body of the loop of \<open>removeGeometry\<close>, for one node.\<close>

definition destroyNode :: "nat \<Rightarrow> drawlist \<Rightarrow> error + drawlist" where
  "destroyNode n s =
     (let s1 = s\<lparr>nodeHeap := (nodeHeap s)(n := (nodeHeap s n)\<lparr>n_destroyed := True\<rparr>)\<rparr>;
          s2 = releaseProgram (n_program (nodeHeap s1 n)) s1
      in releaseStates (map (n_state (nodeHeap s2 n)) node_cats) s2)"

fun destroyNodes :: "nat list \<Rightarrow> drawlist \<Rightarrow> error + drawlist" where
  "destroyNodes [] s = Inr s"
| "destroyNodes (n # ns) s = bind_err (destroyNode n s) (destroyNodes ns)"

text \<open>
  \<open>removeGeometry(sceneId, id)\<close>. Reading \<open>geoNodesMap\<close> of an unknown scene throws; a
  null entry, or no entry and no inherited member, returns at once. An inherited function
  is truthy: the loop runs over its \<open>length\<close> and throws at \<open>node.destroyed = true\<close> for
  the undefined \<open>nodes[0]\<close>, or, the length being 0, is skipped, and the entry is set to
  null and the visible cache reset. Under \<open>"__proto__"\<close> the loop is skipped as well and the
  assignment replaces the prototype of the map.
\<close>

definition removeGeometry :: "string \<Rightarrow> js_id \<Rightarrow> drawlist \<Rightarrow> error + drawlist" where
  "removeGeometry sceneId ident s =
     (case sceneStates s sceneId of
        None \<Rightarrow> Inl TypeError
      | Some sceneState \<Rightarrow>
         (case geoNodesMap sceneState (key_of ident) of
            None \<Rightarrow>
              (case object_prototype (key_of ident) of
                 None \<Rightarrow> Inr s
               | Some ProtoObject \<Rightarrow> Inl (Inherited (key_of ident))
               | Some (ProtoFunction len) \<Rightarrow>
                   if 0 < len then Inl TypeError
                   else Inr (s\<lparr>sceneStates := (sceneStates s)(sceneId \<mapsto>
                          sceneState\<lparr>geoNodesMap := (geoNodesMap sceneState)(key_of ident \<mapsto> None),
                                     lenVisibleCacheBin := 0\<rparr>)\<rparr>))
          | Some None \<Rightarrow> Inr s
          | Some (Some nodes) \<Rightarrow>
              bind_err (destroyNodes nodes s) (\<lambda>s1.
                case sceneStates s1 sceneId of
                  None \<Rightarrow> Inl TypeError
                | Some sc1 \<Rightarrow>
                    Inr (s1\<lparr>sceneStates := (sceneStates s1)(sceneId \<mapsto>
                           sc1\<lparr>geoNodesMap := (geoNodesMap sc1)(key_of ident \<mapsto> None),
                               lenVisibleCacheBin := 0\<rparr>)\<rparr>))))"

section \<open>Bin pre-sorting\<close>

definition layer_of :: "state_obj \<Rightarrow> layer_core option" where
  "layer_of st = (case s_data st of LayerData core \<Rightarrow> core | _ \<Rightarrow> None)"

definition flags_of :: "state_obj \<Rightarrow> flags_t option" where
  "flags_of st = (case s_data st of FlagsData f \<Rightarrow> Some f | _ \<Rightarrow> None)"

definition tag_of :: "state_obj \<Rightarrow> tag_core option" where
  "tag_of st = (case s_data st of TagData core \<Rightarrow> core | _ \<Rightarrow> None)"

definition name_of :: "state_obj \<Rightarrow> string option" where
  "name_of st = (case s_data st of NameData name \<Rightarrow> name | _ \<Rightarrow> None)"

text \<open>
  The sort id that \<open>_createStateStateSortIDs\<close> gives a node:
  \<^verbatim>\<open>node.sortId = (node.layerState.core.priority * 100000) + node.program.id;\<close>
\<close>

definition sortId_of :: "drawlist \<Rightarrow> nat \<Rightarrow> int option" where
  "sortId_of s n =
     (case layer_of (stHeap s (n_state (nodeHeap s n) LAYER)) of
        None \<Rightarrow> None
      | Some core \<Rightarrow> Some (ly_priority core * 100000 + p_id (progHeap s (n_program (nodeHeap s n)))))"

text \<open>The loop of \<open>_createStateStateSortIDs\<close> over the whole array \<open>bin\<close>.\<close>

fun sortIDs :: "nat option list \<Rightarrow> drawlist \<Rightarrow> error + drawlist" where
  "sortIDs [] s = Inr s"
| "sortIDs (x # xs) s =
     (case x of
        None \<Rightarrow> Inl TypeError
      | Some n \<Rightarrow>
         (case sortId_of s n of
            None \<Rightarrow> Inl TypeError
          | Some k \<Rightarrow> sortIDs xs (s\<lparr>nodeHeap := (nodeHeap s)(n := (nodeHeap s n)\<lparr>n_sortId := k\<rparr>)\<rparr>)))"

text \<open>\<open>bin.length = n\<close> cuts the array or pads it with holes.\<close>

definition js_set_length :: "'a option list \<Rightarrow> nat \<Rightarrow> 'a option list" where
  "js_set_length xs n = take n xs @ replicate (n - length xs) None"

text \<open>
  \<open>bin.sort(this._stateSortNodes)\<close> with \<open>a.sortId - b.sortId\<close>: the nodes in ascending
  order of their sort ids, the undefined elements after them. Of the orders a sort may
  produce for equal ids the model takes the stable one.
\<close>

definition js_sort_bin :: "(nat \<Rightarrow> node) \<Rightarrow> nat option list \<Rightarrow> nat option list" where
  "js_sort_bin nodes xs =
     map Some (sort_key (\<lambda>n. n_sortId (nodes n)) (List.map_filter (\<lambda>x. x) xs))
       @ replicate (length (filter (\<lambda>x. x = None) xs)) None"

text \<open>\<open>_stateSortBins\<close>, on the bound scene \<open>sid\<close>.\<close>

definition stateSortBins :: "string \<Rightarrow> drawlist \<Rightarrow> error + drawlist" where
  "stateSortBins sid s =
     (case sceneStates s sid of
        None \<Rightarrow> Inl TypeError
      | Some sc \<Rightarrow>
          bind_err (if stateSortIDsDirty sc then sortIDs (bin sc) s else Inr s) (\<lambda>s1.
            Inr (s1\<lparr>sceneStates := (sceneStates s1)(sid \<mapsto>
                   sc\<lparr>stateSortIDsDirty := False,
                      bin := js_sort_bin (nodeHeap s1) (js_set_length (bin sc) (lenBin sc)),
                      lenVisibleCacheBin := 0\<rparr>)\<rparr>)))"

text \<open>
  \<open>_createStateStateSortIDsNew(bin)\<close>, which nothing calls. Its first loop walks the bin from
  the last node to the first and numbers programs, texture states and geometry states,
  a new number whenever the id differs from that of the node before
  (\<open>program._sortId\<close>, \<open>texState._sortId\<close>, \<open>geoState._sortId\<close>); the second loop combines them with
  the layer priority.
\<close>

record sort_walk =
  sw_lastProgramId :: "int option"
  sw_lastTextureId :: "int option"
  sw_lastGeometryId :: "int option"
  sw_numPrograms :: int
  sw_numTextures :: int
  sw_numGeometries :: int
  sw_programSortId :: "nat \<rightharpoonup> int"
  sw_stateSortId :: "nat \<rightharpoonup> int"

definition sort_walk0 :: sort_walk where
  "sort_walk0 = \<lparr>sw_lastProgramId = None, sw_lastTextureId = None, sw_lastGeometryId = None,
     sw_numPrograms = 0, sw_numTextures = 0, sw_numGeometries = 0,
     sw_programSortId = Map.empty, sw_stateSortId = Map.empty\<rparr>"

definition sortWalkStep :: "drawlist \<Rightarrow> nat \<Rightarrow> sort_walk \<Rightarrow> sort_walk" where
  "sortWalkStep s n w =
     (let nd = nodeHeap s n;
          program = n_program nd;
          tex = n_state nd TEXTURE;
          geo = n_state nd GEO;
          w1 = (if stateId_neq (Some (p_id (progHeap s program))) (sw_lastProgramId w)
                then w\<lparr>sw_programSortId := (sw_programSortId w)(program \<mapsto> sw_numPrograms w),
                       sw_lastProgramId := Some (p_id (progHeap s program)),
                       sw_numPrograms := sw_numPrograms w + 1\<rparr>
                else w);
          w2 = (if stateId_neq (s_stateId (stHeap s tex)) (sw_lastTextureId w1)
                then w1\<lparr>sw_stateSortId := (sw_stateSortId w1)(tex \<mapsto> sw_numTextures w1),
                        sw_lastTextureId := s_stateId (stHeap s tex),
                        sw_numTextures := sw_numTextures w1 + 1\<rparr>
                else w1)
      in (if stateId_neq (s_stateId (stHeap s geo)) (sw_lastGeometryId w2)
          then w2\<lparr>sw_stateSortId := (sw_stateSortId w2)(geo \<mapsto> sw_numGeometries w2),
                  sw_lastGeometryId := s_stateId (stHeap s geo),
                  sw_numGeometries := sw_numGeometries w2 + 1\<rparr>
          else w2))"

text \<open>
  The sort id that the second loop gives a node (\<open>None\<close> where a \<open>_sortId\<close> or the layer core
  is undefined):
  \<^verbatim>\<open>node.sortId = (node.layerState.core.priority * numPrograms * numTextures)\<close>
  \<^verbatim>\<open>    + (node.program.id * numTextures) + node.texState._sortId * numGeometries\<close>
  \<^verbatim>\<open>    + node.geoState._sortId;\<close>
\<close>

definition sortIdNew :: "drawlist \<Rightarrow> sort_walk \<Rightarrow> nat \<Rightarrow> int option" where
  "sortIdNew s w n =
     (let nd = nodeHeap s n
      in case (layer_of (stHeap s (n_state nd LAYER)), sw_stateSortId w (n_state nd TEXTURE),
               sw_stateSortId w (n_state nd GEO)) of
           (Some core, Some t, Some g) \<Rightarrow>
             Some (ly_priority core * sw_numPrograms w * sw_numTextures w
                   + p_id (progHeap s (n_program nd)) * sw_numTextures w
                   + t * sw_numGeometries w + g)
         | _ \<Rightarrow> None)"

definition createStateStateSortIDsNew :: "drawlist \<Rightarrow> nat list \<Rightarrow> nat \<Rightarrow> int option" where
  "createStateStateSortIDsNew s ns = sortIdNew s (fold (sortWalkStep s) (rev ns) sort_walk0)"

section \<open>Rendering\<close>

text \<open>
  What a pass asks of the renderer and of the WebGL context, in order: \<open>renderNode(node)\<close>,
  \<open>context.enable(BLEND)\<close>, \<open>context.blendFunc(SRC_ALPHA, ONE_MINUS_SRC_ALPHA)\<close>,
  \<open>context.disable(BLEND)\<close>.
\<close>

datatype gl_event = RenderNode nat | EnableBlend | BlendFunc | DisableBlend

record tag_selector =
  ts_mask :: string
  ts_regex :: "string \<Rightarrow> bool"

text \<open>
  The variables of a pass of \<open>_renderDrawList\<close>: the bin being compacted, the count of
  destroyed nodes, the State Objects (the tag cores cache their match), the calls made so
  far, the nodes written to \<open>transparentBin[0 .. nTransparent - 1]\<close>, and the visible cache.
\<close>

record walk =
  w_bin :: "nat option list"
  w_countDestroyed :: nat
  w_stHeap :: "nat \<Rightarrow> state_obj"
  w_trace :: "gl_event list"
  w_transparent :: "nat list"
  w_visible :: "nat option list"
  w_lenVisible :: nat

text \<open>
  Routing a node that passed the filters: buffered when transparent and not picking,
  rendered otherwise.
\<close>

definition route :: "bool \<Rightarrow> flags_t \<Rightarrow> nat \<Rightarrow> walk \<Rightarrow> walk" where
  "route picking flags n w =
     (if \<not> picking \<and> fl_transparent flags
      then w\<lparr>w_transparent := w_transparent w @ [n]\<rparr>
      else w\<lparr>w_trace := w_trace w @ [RenderNode n]\<rparr>)"

text \<open>
  The tag test on a node whose tag state is at \<open>t\<close>: \<open>None\<close> to skip the node, else the
  State Objects with the match cached in the tag core.
\<close>

definition tag_match :: "tag_selector option \<Rightarrow> nat \<Rightarrow> (nat \<Rightarrow> state_obj) \<Rightarrow> (nat \<Rightarrow> state_obj) \<times> bool" where
  "tag_match tagSelector t h =
     (case tagSelector of
        None \<Rightarrow> (h, True)
      | Some sel \<Rightarrow>
          if ts_mask sel = [] then (h, True)
          else
            (case tag_of (h t) of
               None \<Rightarrow> (h, True)
             | Some tagCore \<Rightarrow>
                 if tc_mask tagCore \<noteq> Some (ts_mask sel)
                 then (h(t := (h t)\<lparr>s_data := TagData (Some (tagCore
                          \<lparr>tc_mask := Some (ts_mask sel),
                           tc_matches := ts_regex sel (tc_tag tagCore)\<rparr>))\<rparr>),
                       ts_regex sel (tc_tag tagCore))
                 else (h, tc_matches tagCore)))"

text \<open>One iteration of the loop over the main bin, at index \<open>i\<close>.\<close>

definition walkStep :: "(nat \<Rightarrow> node) \<Rightarrow> bool \<Rightarrow> tag_selector option \<Rightarrow> nat \<Rightarrow> walk \<Rightarrow> error + walk" where
  "walkStep nodes picking tagSelector i w =
     (case js_get (w_bin w) i of
        None \<Rightarrow> Inl TypeError
      | Some n \<Rightarrow>
          if n_destroyed (nodes n) then
            Inr (w\<lparr>w_countDestroyed := Suc (w_countDestroyed w),
                   w_bin := js_array_set (w_bin w) i
                              (js_get (w_bin w) (i + Suc (w_countDestroyed w)))\<rparr>)
          else
            let w1 = (if w_countDestroyed w > 0
                      then w\<lparr>w_bin := js_array_set (w_bin w) i
                                         (js_get (w_bin w) (i + w_countDestroyed w))\<rparr>
                      else w)
            in (case flags_of (w_stHeap w1 (n_state (nodes n) FLAGS)) of
                  None \<Rightarrow> Inl TypeError
                | Some flags \<Rightarrow>
                    if \<not> fl_enabled flags then Inr w1
                    else
                      let (h, matches) = tag_match tagSelector (n_state (nodes n) TAG) (w_stHeap w1);
                          w2 = w1\<lparr>w_stHeap := h\<rparr>
                      in if \<not> matches then Inr w2
                         else
                           (case layer_of (w_stHeap w2 (n_state (nodes n) LAYER)) of
                              None \<Rightarrow> Inl TypeError
                            | Some core \<Rightarrow>
                                if \<not> ly_enabled core then Inr w2
                                else if picking \<and> \<not> fl_picking flags then Inr w2
                                else
                                  let w3 = route picking flags n w2
                                  in Inr (w3\<lparr>w_visible := js_array_set (w_visible w3)
                                                             (w_lenVisible w3) (Some n),
                                            w_lenVisible := Suc (w_lenVisible w3)\<rparr>))))"

fun walkBin :: "(nat \<Rightarrow> node) \<Rightarrow> bool \<Rightarrow> tag_selector option \<Rightarrow> nat list \<Rightarrow> walk \<Rightarrow> error + walk" where
  "walkBin nodes picking tagSelector [] w = Inr w"
| "walkBin nodes picking tagSelector (i # is) w =
     bind_err (walkStep nodes picking tagSelector i w) (walkBin nodes picking tagSelector is)"

text \<open>One iteration of the loop over the visible cache.\<close>

definition cacheStep :: "(nat \<Rightarrow> node) \<Rightarrow> bool \<Rightarrow> nat \<Rightarrow> walk \<Rightarrow> error + walk" where
  "cacheStep nodes picking i w =
     (case js_get (w_visible w) i of
        None \<Rightarrow> Inl TypeError
      | Some n \<Rightarrow>
         (case flags_of (w_stHeap w (n_state (nodes n) FLAGS)) of
            None \<Rightarrow> Inl TypeError
          | Some flags \<Rightarrow>
              if picking \<and> \<not> fl_picking flags then Inr w
              else Inr (route picking flags n w)))"

fun walkCache :: "(nat \<Rightarrow> node) \<Rightarrow> bool \<Rightarrow> nat list \<Rightarrow> walk \<Rightarrow> error + walk" where
  "walkCache nodes picking [] w = Inr w"
| "walkCache nodes picking (i # is) w =
     bind_err (cacheStep nodes picking i w) (walkCache nodes picking is)"

text \<open>The transparent bin, rendered with blending enabled.\<close>

definition renderTransparent :: "nat list \<Rightarrow> gl_event list" where
  "renderTransparent ns =
     (if length ns > 0 then [EnableBlend, BlendFunc] @ map RenderNode ns @ [DisableBlend] else [])"

text \<open>
  \<open>_renderDrawList(states, picking, tagSelector)\<close> on the scene \<open>sid\<close>: the new module state
  and the calls made.
\<close>

definition renderDrawList :: "string \<Rightarrow> bool \<Rightarrow> tag_selector option \<Rightarrow> drawlist \<Rightarrow> error + (drawlist \<times> gl_event list)" where
  "renderDrawList sid picking tagSelector s =
     (case sceneStates s sid of
        None \<Rightarrow> Inl TypeError
      | Some sc \<Rightarrow>
          let w0 = \<lparr>w_bin = bin sc, w_countDestroyed = 0, w_stHeap = stHeap s, w_trace = [],
                    w_transparent = [], w_visible = visibleCacheBin sc,
                    w_lenVisible = lenVisibleCacheBin sc\<rparr>
          in bind_err
               (if lenVisibleCacheBin sc > 0
                then walkCache (nodeHeap s) picking [0..<lenVisibleCacheBin sc] w0
                else bind_err (walkBin (nodeHeap s) picking tagSelector [0..<lenBin sc] w0) (\<lambda>w.
                       Inr (if w_countDestroyed w > 0
                            then w\<lparr>w_bin := take (length (w_bin w) - w_countDestroyed w) (w_bin w)\<rparr>
                            else w)))
               (\<lambda>w. Inr (s\<lparr>stHeap := w_stHeap w,
                            sceneStates := (sceneStates s)(sid \<mapsto>
                              sc\<lparr>bin := w_bin w,
                                 lenBin := (if lenVisibleCacheBin sc > 0 \<or> w_countDestroyed w = 0
                                            then lenBin sc else length (w_bin w)),
                                 visibleCacheBin := w_visible w,
                                 lenVisibleCacheBin := w_lenVisible w\<rparr>)\<rparr>,
                          w_trace w @ renderTransparent (w_transparent w))))"

text \<open>
  \<open>renderFrame(params)\<close> with \<open>params.tagSelector\<close>; the profiling callback is left out.
  The result is the module state after the frame and the calls made.
\<close>

definition renderFrame :: "tag_selector option \<Rightarrow> drawlist \<Rightarrow> error + (drawlist \<times> gl_event list)" where
  "renderFrame tagSelector s =
     (case states s of
        None \<Rightarrow> Inl (FatalError ''No scene bound'')
      | Some sid \<Rightarrow>
         (case sceneStates s sid of
            None \<Rightarrow> Inl TypeError
          | Some sc \<Rightarrow>
              let s0 = s\<lparr>sceneStates := (sceneStates s)(sid \<mapsto> sc\<lparr>pickBufDirty := True\<rparr>)\<rparr>;
                  sorted = stateSortDirty sc
              in bind_err (if sorted then stateSortBins sid s0 else Inr s0) (\<lambda>s1.
                   case sceneStates s1 sid of
                     None \<Rightarrow> Inl TypeError
                   | Some sc1 \<Rightarrow>
                       let drawCallListDirty = (sorted \<or> compileMode s1 = Some COMPILE_SCENE
                                                  \<or> compileMode s1 = Some COMPILE_BRANCH);
                           drawCallFuncsDirty = (compileMode s1 = Some COMPILE_SCENE);
                           sc2 = (if sorted then sc1\<lparr>stateSortDirty := False\<rparr> else sc1);
                           sc3 = (if drawCallListDirty
                                  then sc2\<lparr>pickCallListDirty := True,
                                           pickCallFuncsDirty := drawCallFuncsDirty\<rparr>
                                  else sc2);
                           s2 = s1\<lparr>sceneStates := (sceneStates s1)(sid \<mapsto> sc3)\<rparr>
                       in bind_err (renderDrawList sid False tagSelector s2) (\<lambda>(s3, calls).
                            Inr (s3\<lparr>states := None\<rparr>, calls)))))"

section \<open>Picking\<close>

fun rendered :: "gl_event list \<Rightarrow> nat list" where
  "rendered [] = []"
| "rendered (RenderNode n # es) = n # rendered es"
| "rendered (e # es) = rendered es"

text \<open>
  Modelled from the spec: in a pick pass the renderer (SceneJS_DrawListRenderer, not among
  the sources) gives the nodes pick colours by their rendering order, \<open>pickColor k\<close> to the
  node rendered at index \<open>k\<close>, and enters that node's name state at \<open>pickNameStates[k]\<close>.
  Which pixels a node covers is the GPU's business: \<open>raster n p\<close> says whether node \<open>n\<close>
  covers position \<open>p\<close>, and a later node paints over an earlier one.
\<close>

fun paintNodes :: "(nat \<Rightarrow> int \<times> int \<Rightarrow> bool) \<Rightarrow> nat list \<Rightarrow> int \<Rightarrow> pickbuf \<Rightarrow> pickbuf" where
  "paintNodes raster [] k buf = buf"
| "paintNodes raster (n # ns) k buf =
     paintNodes raster ns (k + 1) (\<lambda>p. if raster n p then pickColor k else buf p)"

definition clearBuf :: pickbuf where
  "clearBuf = (\<lambda>p. (0, 0, 0, 0))"

text \<open>
  The pick pass of \<open>pick\<close>, run when \<open>pickCallListDirty\<close> or \<open>pickBufDirty\<close> is set: the
  buffer is cleared, the draw list rendered in picking mode, the three flags cleared.
\<close>

definition pickPass :: "(nat \<Rightarrow> int \<times> int \<Rightarrow> bool) \<Rightarrow> string \<Rightarrow> tag_selector option \<Rightarrow> drawlist \<Rightarrow> error + drawlist" where
  "pickPass raster sceneId tagSelector s =
     bind_err (renderDrawList sceneId True tagSelector s) (\<lambda>(s1, calls).
       case sceneStates s1 sceneId of
         None \<Rightarrow> Inl TypeError
       | Some sc \<Rightarrow>
           Inr (s1\<lparr>sceneStates := (sceneStates s1)(sceneId \<mapsto>
                  sc\<lparr>pickBuf := Some (paintNodes raster (rendered calls) 0 clearBuf),
                     pickNameStates := map (\<lambda>n. n_state (nodeHeap s1 n) NAME) (rendered calls),
                     pickCallListDirty := False,
                     pickCallFuncsDirty := False,
                     pickBufDirty := False\<rparr>)\<rparr>))"

text \<open>
  \<open>pick(params)\<close> with \<open>params.sceneId\<close>, \<open>canvasX\<close>, \<open>canvasY\<close> and \<open>tagSelector\<close>, without
  \<open>rayPick\<close> (the ray pick is floating-point geometry). A scene id that names an inherited
  member passes the test \<open>!states\<close>, and reading \<open>states.canvas.canvas\<close> throws. The result is \<open>None\<close> for
  \<open>hit = null\<close>, else the \<open>name\<close> property of the name state picked (which may be
  undefined), and the module state.
\<close>

definition pick :: "(nat \<Rightarrow> int \<times> int \<Rightarrow> bool) \<Rightarrow> string \<Rightarrow> int \<Rightarrow> int \<Rightarrow> tag_selector option \<Rightarrow> drawlist
    \<Rightarrow> error + (string option option \<times> drawlist)" where
  "pick raster sceneId canvasX canvasY tagSelector s =
     (case sceneStates s sceneId of
        None \<Rightarrow> if object_prototype sceneId \<noteq> None then Inl TypeError
                else Inl (Thrown ''No drawList found for scene'')
      | Some sc \<Rightarrow>
          let sc1 = (case pickBuf sc of
                       None \<Rightarrow> sc\<lparr>pickBuf := Some clearBuf, pickBufDirty := True\<rparr>
                     | Some b \<Rightarrow> sc);
              s1 = s\<lparr>sceneStates := (sceneStates s)(sceneId \<mapsto> sc1)\<rparr>
          in bind_err (if pickCallListDirty sc1 \<or> pickBufDirty sc1
                       then pickPass raster sceneId tagSelector s1 else Inr s1) (\<lambda>s2.
               case sceneStates s2 sceneId of
                 None \<Rightarrow> Inl TypeError
               | Some sc2 \<Rightarrow>
                  (case pickBuf sc2 of
                     None \<Rightarrow> Inl TypeError
                   | Some buf \<Rightarrow>
                       Inr (case pickNameState_at (pickNameStates sc2) (buf (canvasX, canvasY)) of
                              None \<Rightarrow> None
                            | Some nameState \<Rightarrow> Some (name_of (stHeap s2 nameState)),
                            s2))))"

section \<open>Notions used in the statements\<close>

text \<open>
  Whether the flags at the address held in a node's \<open>flagsState\<close> say
  \<open>transparent === true\<close>, in a given store of State Objects.
\<close>

definition transparent_in :: "(nat \<Rightarrow> state_obj) \<Rightarrow> (nat \<Rightarrow> node) \<Rightarrow> nat \<Rightarrow> bool" where
  "transparent_in h nodes n =
     (case flags_of (h (n_state (nodes n) FLAGS)) of Some f \<Rightarrow> fl_transparent f | None \<Rightarrow> False)"

definition transparent_node :: "drawlist \<Rightarrow> nat \<Rightarrow> bool" where
  "transparent_node s n = transparent_in (stHeap s) (nodeHeap s) n"

text \<open>
  The calls of a pass that renders the opaque nodes of \<open>vis\<close> in their order and then, if
  there are any, the transparent nodes of \<open>vis\<close> in their order between enabling and
  disabling blending.
\<close>

definition opaque_then_transparent :: "drawlist \<Rightarrow> nat list \<Rightarrow> gl_event list" where
  "opaque_then_transparent s vis =
     map RenderNode (filter (\<lambda>n. \<not> transparent_node s n) vis)
     @ (if filter (transparent_node s) vis = [] then []
        else [EnableBlend, BlendFunc] @ map RenderNode (filter (transparent_node s) vis)
             @ [DisableBlend])"

text \<open>
  The invariant of the loop over the main bin in a pass that is not picking: \<open>V\<close> are the
  nodes routed so far, in the order met.
\<close>

definition walk_inv :: "(nat \<Rightarrow> state_obj) \<Rightarrow> (nat \<Rightarrow> node) \<Rightarrow> walk \<Rightarrow> nat list \<Rightarrow> bool" where
  "walk_inv h0 nodes w V \<longleftrightarrow>
     take (w_lenVisible w) (w_visible w) = map Some V \<and> length V = w_lenVisible w
     \<and> w_trace w = map RenderNode (filter (\<lambda>n. \<not> transparent_in h0 nodes n) V)
     \<and> w_transparent w = filter (transparent_in h0 nodes) V
     \<and> (\<forall>a. flags_of (w_stHeap w a) = flags_of (h0 a))"



definition counts_only :: "drawlist \<Rightarrow> (nat \<Rightarrow> state_obj) \<Rightarrow> (string \<rightharpoonup> scene_state) \<Rightarrow> bool" where
  "counts_only s h m \<longleftrightarrow>
     (\<forall>a. \<exists>k. h a = (stHeap s a)\<lparr>s_nodeCount := k\<rparr>)
     \<and> (\<forall>sid. case sceneStates s sid of
                 None \<Rightarrow> m sid = None
               | Some sc \<Rightarrow> (\<exists>sm. m sid = Some (sc\<lparr>stateMap := sm\<rparr>)))"

definition counts_step :: "drawlist \<Rightarrow> drawlist \<Rightarrow> bool" where
  "counts_step s s' \<longleftrightarrow>
     s' = s\<lparr>stHeap := stHeap s', sceneStates := sceneStates s'\<rparr>
     \<and> counts_only s (stHeap s') (sceneStates s')"

definition mark_destroyed :: "nat list \<Rightarrow> drawlist \<Rightarrow> drawlist" where
  "mark_destroyed ns s =
     s\<lparr>nodeHeap := (\<lambda>n. if n \<in> set ns then (nodeHeap s n)\<lparr>n_destroyed := True\<rparr> else nodeHeap s n),
       progHeap := (\<lambda>a. (progHeap s a)\<lparr>p_refCount := p_refCount (progHeap s a)
                      - int (length (filter (\<lambda>n. n_program (nodeHeap s n) = a) ns))\<rparr>)\<rparr>"

definition live_walk :: "(nat \<Rightarrow> node) \<Rightarrow> walk \<Rightarrow> bool" where
  "live_walk nodes w \<longleftrightarrow>
     (\<forall>n\<in>set (rendered (w_trace w)) \<union> set (w_transparent w). \<not> n_destroyed (nodes n))"

text \<open>
  The display nodes that hold the program \<open>a\<close>, among all that \<open>setGeometry\<close> has created,
  less those that \<open>removeGeometry\<close> has destroyed. A full recompilation empties the bin and
  the maps of its scene without destroying a node or releasing a program, and the nodes it
  drops stay in this list.
\<close>

definition counted_nodes :: "drawlist \<Rightarrow> nat \<Rightarrow> nat list" where
  "counted_nodes s a =
     filter (\<lambda>n. \<not> n_destroyed (nodeHeap s n) \<and> n_program (nodeHeap s n) = a) [0..<nodeNext s]"











text \<open>
  The calls that the rest of the engine makes on the draw list, and a run of them from
  the module as loaded. A run stops at the first call that throws.
\<close>

datatype api_call =
    SceneCreated string string
  | BindScene string "compile_mode option" bool
  | SetClips "string list args"
  | SetColortrans "nat args"
  | SetFlags "flags_t args"
  | SetLayer "layer_core args"
  | SetFrameBuf "nat args"
  | SetLights "light list args"
  | SetMaterial "nat args"
  | SetMorph "morph_target args"
  | SetTexture "tex_layer list args"
  | SetRenderer "nat args"
  | SetModelTransform "(nat option \<times> nat option) args"
  | SetProjectionTransform "(nat option \<times> nat option) args"
  | SetViewTransform "(nat option \<times> nat option \<times> nat option) args"
  | SetName "string args"
  | SetTag "tag_core args"
  | SetRenderListeners "nat args"
  | SetShader "string option args"
  | SetShaderParams "nat args"
  | SetGeometry js_id geo_t
  | RemoveGeometry string js_id
  | RenderFrame "tag_selector option"
  | Pick "nat \<Rightarrow> int \<times> int \<Rightarrow> bool" string int int "tag_selector option"

fun call :: "api_call \<Rightarrow> drawlist \<Rightarrow> error + drawlist" where
  "call (SceneCreated sceneId canvas) s = Inr (sceneCreated sceneId canvas s)"
| "call (BindScene sceneId mode resort) s = bindScene sceneId mode resort s"
| "call (SetClips a) s = setClips a s"
| "call (SetColortrans a) s = setColortrans a s"
| "call (SetFlags a) s = setFlags a s"
| "call (SetLayer a) s = setLayer a s"
| "call (SetFrameBuf a) s = setFrameBuf a s"
| "call (SetLights a) s = setLights a s"
| "call (SetMaterial a) s = setMaterial a s"
| "call (SetMorph a) s = setMorph a s"
| "call (SetTexture a) s = setTexture a s"
| "call (SetRenderer a) s = setRenderer a s"
| "call (SetModelTransform a) s = setModelTransform a s"
| "call (SetProjectionTransform a) s = setProjectionTransform a s"
| "call (SetViewTransform a) s = setViewTransform a s"
| "call (SetName a) s = setName a s"
| "call (SetTag a) s = setTag a s"
| "call (SetRenderListeners a) s = setRenderListeners a s"
| "call (SetShader a) s = setShader a s"
| "call (SetShaderParams a) s = setShaderParams a s"
| "call (SetGeometry ident geo) s = setGeometry ident geo s"
| "call (RemoveGeometry sceneId ident) s = removeGeometry sceneId ident s"
| "call (RenderFrame tagSelector) s =
     bind_err (renderFrame tagSelector s) (\<lambda>(s', calls). Inr s')"
| "call (Pick raster sceneId canvasX canvasY tagSelector) s =
     bind_err (pick raster sceneId canvasX canvasY tagSelector s) (\<lambda>(hit, s'). Inr s')"

fun run :: "api_call list \<Rightarrow> drawlist \<Rightarrow> error + drawlist" where
  "run [] s = Inr s"
| "run (c # cs) s = bind_err (call c s) (run cs)"

section \<open>A small scene\<close>

text \<open>
  A scene \<open>"s"\<close> on the canvas \<open>"c"\<close>, bound for a full compilation in the module as
  loaded (no shader fails to compile), and what the calls below make of it. Where a
  call returns, the state named is the state it returns.
\<close>

definition loaded :: drawlist where
  "loaded = init_drawlist (\<lambda>h. False)"

definition tris :: geo_t where
  "tris = \<lparr>g_normalBuf = True, g_uvBuf = False, g_uvBuf2 = False, g_colorBuf = False,
            g_primitive = ''tri''\<rparr>"

definition open_scene :: "api_call list" where
  "open_scene = [SceneCreated ''s'' ''c'', BindScene ''s'' (Some COMPILE_SCENE) False]"

definition scene_open :: drawlist where
  "scene_open = projr (run open_scene loaded)"

definition box_calls :: "api_call list" where
  "box_calls = open_scene @ [SetName (Some (IdStr ''n'', Some ''box'')), SetGeometry (IdStr ''a'') tris]"

definition box :: drawlist where
  "box = projr (run box_calls loaded)"

definition box_gone :: drawlist where
  "box_gone = projr (removeGeometry ''s'' (IdStr ''a'') box)"

definition only_box :: "nat \<Rightarrow> int \<times> int \<Rightarrow> bool" where
  "only_box n p = (n = 0)"

definition wall_glass_calls :: "api_call list" where
  "wall_glass_calls = open_scene @
     [SetLayer (Some (IdStr ''l'', Some \<lparr>ly_priority = 5, ly_enabled = True\<rparr>)),
      SetGeometry (IdStr ''wall'') tris,
      SetLayer None,
      SetFlags (Some (IdStr ''f'', Some \<lparr>fl_enabled = True, fl_picking = True, fl_transparent = True\<rparr>)),
      SetGeometry (IdStr ''glass'') tris]"

definition wall_glass :: drawlist where
  "wall_glass = projr (run wall_glass_calls loaded)"

definition boxes_calls :: "api_call list" where
  "boxes_calls = open_scene @ [SetGeometry (IdStr ''a'') tris, SetGeometry (IdStr ''b'') tris]"


definition flagged_box_calls :: "api_call list" where
  "flagged_box_calls = open_scene @
     [SetFlags (Some (IdStr ''f'', Some \<lparr>fl_enabled = True, fl_picking = True, fl_transparent = False\<rparr>)),
      SetGeometry (IdStr ''a'') tris]"

definition flagged_box :: drawlist where
  "flagged_box = projr (run flagged_box_calls loaded)"

definition flagged_box_gone :: drawlist where
  "flagged_box_gone = projr (removeGeometry ''s'' (IdStr ''a'') flagged_box)"

definition flags_again_calls :: "api_call list" where
  "flags_again_calls =
     [BindScene ''s'' (Some COMPILE_BRANCH) False,
      SetFlags (Some (IdStr ''f'', Some \<lparr>fl_enabled = True, fl_picking = True, fl_transparent = False\<rparr>))]"

definition flags_again :: drawlist where
  "flags_again = projr (run flags_again_calls flagged_box_gone)"

definition wall_glass_sorted :: drawlist where
  "wall_glass_sorted = projr (stateSortBins ''s'' wall_glass)"

definition boxes :: drawlist where
  "boxes = projr (run boxes_calls loaded)"

definition boxes_sorted :: drawlist where
  "boxes_sorted = projr (stateSortBins ''s'' boxes)"

definition wall_glass_frame :: "drawlist \<times> gl_event list" where
  "wall_glass_frame = projr (renderFrame None wall_glass)"

definition wall_glass_pass :: "drawlist \<times> gl_event list" where
  "wall_glass_pass = projr (renderDrawList ''s'' False None wall_glass)"

definition box_picked :: drawlist where
  "box_picked = snd (projr (pick only_box ''s'' 0 0 None box))"

definition box_picked_gone :: drawlist where
  "box_picked_gone = projr (removeGeometry ''s'' (IdStr ''a'') box_picked)"




definition recompiled_calls :: "api_call list" where
  "recompiled_calls = open_scene @
     [SetGeometry (IdStr ''a'') tris,
      BindScene ''s'' (Some COMPILE_SCENE) False,
      SetGeometry (IdStr ''a'') tris]"

definition recompiled :: drawlist where
  "recompiled = projr (run recompiled_calls loaded)"

definition box_shown :: drawlist where
  "box_shown = projr (run (box_calls @ [RenderFrame None]) loaded)"

definition box_shown_toString :: drawlist where
  "box_shown_toString = projr (removeGeometry ''s'' (IdStr ''toString'') box_shown)"

definition branch_open :: drawlist where
  "branch_open = projr (run (open_scene @ [BindScene ''s'' (Some COMPILE_BRANCH) False]) loaded)"

section \<open>Pick id round trip\<close>

lemma three_bytes:
  fixes n :: int
  assumes "0 \<le> n" and "n < 16777216"
  shows "n mod 256 + (n div 256 mod 256) * 256 + (n div 65536 mod 256) * 65536 = n"
proof -
  have "n div 65536 < 256" using assms by simp
  moreover have "0 \<le> n div 65536" using assms by simp
  ultimately have hi: "n div 65536 mod 256 = n div 65536" by simp
  have e: "n div 65536 = n div 256 div 256"
    by (simp add: div_mult2_eq [symmetric])
  have lo: "n = 256 * (n div 256) + n mod 256"
    by simp
  have mid: "n div 256 = 256 * (n div 256 div 256) + n div 256 mod 256"
    by simp
  have "n mod 256 + (n div 256 mod 256) * 256 + (n div 256 div 256) * 65536 = n"
    using lo mid by linarith
  then have "n mod 256 + (n div 256 mod 256) * 256 + (n div 65536) * 65536 = n"
    by (simp only: e)
  then show ?thesis
    by (simp only: hi)
qed

lemma pickColor_bytes:
  "pickColor k = ((k + 1) mod 256, (k + 1) div 256 mod 256, (k + 1) div 65536 mod 256, 255)"
  unfolding pickColor_def drop_bit_eq_div by simp

lemma pickedNodeIndex_pickColor:
  assumes "0 \<le> k" and "k \<le> 16777214"
  shows "pickedNodeIndex (pickColor k) = k + 1"
proof -
  have "0 \<le> k + 1" and "k + 1 < 16777216"
    using assms by linarith+
  then have "(k + 1) mod 256 + ((k + 1) div 256 mod 256) * 256
      + ((k + 1) div 65536 mod 256) * 65536 = k + 1"
    by (rule three_bytes)
  then show ?thesis
    by (simp only: pickColor_bytes pickedNodeIndex.simps)
qed

text \<open>
  Claim C2. For every node index \<open>k\<close> in \<open>[0, 16777214]\<close>, the colour that encodes \<open>k\<close> is
  decoded by the pick routine back to the index \<open>k\<close>; and a pixel that decodes to 0 is no
  hit: the index becomes -1, where \<open>pickNameStates\<close> has no entry, so \<open>hit\<close> stays null.
\<close>

theorem pick_id_roundtrip:
  "0 \<le> k \<Longrightarrow> k \<le> 16777214 \<Longrightarrow>
     pickedNodeIndex (pickColor k) - 1 = k \<and> pickIndex (pickColor k) = k
     \<and> pickNameState_at names (0, 0, 0, a) = None"
  using pickedNodeIndex_pickColor [of k]
  by (simp add: pickIndex_def pickNameState_at_def js_index_def)

theorem pick_id_roundtrip_witness:
  "pickColor 16777214 = (255, 255, 255, 255) \<and> pickIndex (255, 255, 255, 255) = 16777214
   \<and> pickIndex (pickColor 0) = 0 \<and> pickNameState_at [''n0''] (0, 0, 0, 0) = None"
  using pick_id_roundtrip [of 16777214 "[''n0'']" 0] pick_id_roundtrip [of 0 "[''n0'']" 0]
  by (simp add: pickColor_def drop_bit_eq_div)

section \<open>The transparent pass\<close>

lemma tag_match_flags:
  "tag_match ts t h = (h', m) \<Longrightarrow> flags_of (h' a) = flags_of (h a)"
  by (auto simp: tag_match_def flags_of_def tag_of_def split: option.splits if_splits payload.splits)

lemma js_get_set_other:
  "i < length xs \<Longrightarrow> j \<noteq> i \<Longrightarrow> js_get (js_array_set xs i v) j = js_get xs j"
  by (simp add: js_get_def js_array_set_def)

lemma js_get_Some_length: "js_get xs i = Some n \<Longrightarrow> i < length xs"
  by (simp add: js_get_def split: if_splits)

lemma take_append_visible:
  assumes "take k xs = map Some V" and "length V = k"
  shows "take (Suc k) (js_array_set xs k (Some n)) = map Some (V @ [n])"
proof (cases "k < length xs")
  case True
  then show ?thesis using assms
    by (simp add: js_array_set_def take_Suc_conv_app_nth)
next
  case False
  with assms have "length xs = k"
    by (metis length_map length_take min_def not_le_imp_less)
  then show ?thesis using assms by (simp add: js_array_set_def)
qed

lemma route_inv:
  assumes "walk_inv h0 nodes w V"
    and "flags_of (w_stHeap w (n_state (nodes n) FLAGS)) = Some flags"
  shows "walk_inv h0 nodes
           ((route False flags n w)\<lparr>w_visible := js_array_set (w_visible (route False flags n w))
                                       (w_lenVisible (route False flags n w)) (Some n),
                                   w_lenVisible := Suc (w_lenVisible (route False flags n w))\<rparr>)
           (V @ [n])"
proof -
  have tr: "transparent_in h0 nodes n = fl_transparent flags"
    using assms by (simp add: walk_inv_def transparent_in_def)
  have vis: "take (Suc (w_lenVisible w)) (js_array_set (w_visible w) (w_lenVisible w) (Some n))
      = map Some (V @ [n])"
    using assms(1) by (intro take_append_visible) (simp_all add: walk_inv_def)
  show ?thesis
    using assms(1) tr vis by (simp add: walk_inv_def route_def)
qed

lemma walkStep_inv:
  assumes "walkStep nodes False ts i w = Inr w'" and "walk_inv h0 nodes w V"
  shows "\<exists>n. js_get (w_bin w) i = Some n \<and> (walk_inv h0 nodes w' V \<or> walk_inv h0 nodes w' (V @ [n]))
           \<and> (\<forall>j. j \<noteq> i \<longrightarrow> js_get (w_bin w') j = js_get (w_bin w) j)"
proof -
  from assms(1) obtain n where n: "js_get (w_bin w) i = Some n"
    by (auto simp: walkStep_def split: option.splits)
  have len: "i < length (w_bin w)" using n by (rule js_get_Some_length)
  show ?thesis
  proof (cases "n_destroyed (nodes n)")
    case True
    then show ?thesis using assms n len
      by (auto simp: walkStep_def walk_inv_def js_get_set_other)
  next
    case False
    define w1 where "w1 = (if w_countDestroyed w > 0
                      then w\<lparr>w_bin := js_array_set (w_bin w) i
                                         (js_get (w_bin w) (i + w_countDestroyed w))\<rparr>
                      else w)"
    have w1: "walk_inv h0 nodes w1 V" "\<forall>j. j \<noteq> i \<longrightarrow> js_get (w_bin w1) j = js_get (w_bin w) j"
      using assms(2) len by (auto simp: w1_def walk_inv_def js_get_set_other)
    from assms(1) n False obtain flags where fl: "flags_of (w_stHeap w1 (n_state (nodes n) FLAGS)) = Some flags"
      by (auto simp: walkStep_def Let_def w1_def split: option.splits if_splits)
    obtain h m where tm: "tag_match ts (n_state (nodes n) TAG) (w_stHeap w1) = (h, m)"
      by fastforce
    define w2 where "w2 = w1\<lparr>w_stHeap := h\<rparr>"
    have w2: "walk_inv h0 nodes w2 V" "w_bin w2 = w_bin w1"
      using w1 tag_match_flags [OF tm] by (simp_all add: w2_def walk_inv_def)
    have fl2: "flags_of (w_stHeap w2 (n_state (nodes n) FLAGS)) = Some flags"
      using fl tag_match_flags [OF tm] by (simp add: w2_def)
    have "w' = w1 \<or> w' = w2 \<or>
          w' = (route False flags n w2)\<lparr>w_visible := js_array_set (w_visible (route False flags n w2))
                                       (w_lenVisible (route False flags n w2)) (Some n),
                                   w_lenVisible := Suc (w_lenVisible (route False flags n w2))\<rparr>"
      using assms(1) n False fl tm
      by (auto simp: walkStep_def Let_def w1_def [symmetric] w2_def split: option.splits if_splits)
    then show ?thesis
      using w1 w2 n route_inv [OF w2(1) fl2] by (auto simp: route_def)
  qed
qed

lemma walkBin_inv:
  assumes "walkBin nodes False ts is w = Inr w'" and "walk_inv h0 nodes w V" and "distinct is"
  shows "\<exists>V'. walk_inv h0 nodes w' (V @ V') \<and> subseq (map Some V') (map (js_get (w_bin w)) is)
           \<and> (\<forall>i\<in>set is. js_get (w_bin w) i \<noteq> None)"
  using assms
proof (induction "is" arbitrary: w V)
  case Nil
  then show ?case by (intro exI [of _ "[]"]) simp
next
  case (Cons i "is")
  from Cons.prems(1) obtain w1 where w1: "walkStep nodes False ts i w = Inr w1"
    and rest: "walkBin nodes False ts is w1 = Inr w'"
    by (auto simp: bind_err_def split: sum.splits)
  from walkStep_inv [OF w1 Cons.prems(2)] obtain n where n: "js_get (w_bin w) i = Some n"
    and inv1: "walk_inv h0 nodes w1 V \<or> walk_inv h0 nodes w1 (V @ [n])"
    and same: "\<forall>j. j \<noteq> i \<longrightarrow> js_get (w_bin w1) j = js_get (w_bin w) j"
    by blast
  have eq: "map (js_get (w_bin w1)) is = map (js_get (w_bin w)) is"
    using same Cons.prems(3) by auto
  from inv1 show ?case
  proof
    assume "walk_inv h0 nodes w1 V"
    from Cons.IH [OF rest this] Cons.prems(3) obtain V' where
      "walk_inv h0 nodes w' (V @ V')" "subseq (map Some V') (map (js_get (w_bin w1)) is)"
      "\<forall>i\<in>set is. js_get (w_bin w1) i \<noteq> None"
      by auto
    then show ?thesis using n eq same Cons.prems(3)
      by (intro exI [of _ V']) (auto simp: subseq_Cons')
  next
    assume "walk_inv h0 nodes w1 (V @ [n])"
    from Cons.IH [OF rest this] Cons.prems(3) obtain V' where
      "walk_inv h0 nodes w' ((V @ [n]) @ V')" "subseq (map Some V') (map (js_get (w_bin w1)) is)"
      "\<forall>i\<in>set is. js_get (w_bin w1) i \<noteq> None"
      by auto
    then show ?thesis using n eq same Cons.prems(3)
      by (intro exI [of _ "n # V'"]) auto
  qed
qed

lemma map_js_get_upt:
  assumes "\<forall>i<n. js_get xs i \<noteq> None"
  shows "map (js_get xs) [0..<n] = take n xs"
proof -
  have "n \<le> length xs"
  proof (rule ccontr)
    assume "\<not> n \<le> length xs"
    then have "length xs < n" by simp
    with assms have "js_get xs (length xs) \<noteq> None" by blast
    then show False by (simp add: js_get_def)
  qed
  then show ?thesis
    by (intro nth_equalityI) (simp_all add: js_get_def)
qed

lemma cacheStep_inv:
  assumes "cacheStep nodes False i w = Inr w'"
  shows "\<exists>n flags. js_get (w_visible w) i = Some n
           \<and> flags_of (w_stHeap w (n_state (nodes n) FLAGS)) = Some flags
           \<and> w' = route False flags n w"
  using assms by (auto simp: cacheStep_def split: option.splits)

lemma walkCache_inv:
  assumes "walkCache nodes False is w = Inr w'"
  shows "\<exists>ns. map (js_get (w_visible w)) is = map Some ns
           \<and> w_trace w' = w_trace w @ map RenderNode (filter (\<lambda>n. \<not> transparent_in (w_stHeap w) nodes n) ns)
           \<and> w_transparent w' = w_transparent w @ filter (transparent_in (w_stHeap w) nodes) ns
           \<and> w_visible w' = w_visible w \<and> w_lenVisible w' = w_lenVisible w
           \<and> w_stHeap w' = w_stHeap w \<and> w_bin w' = w_bin w \<and> w_countDestroyed w' = w_countDestroyed w"
  using assms
proof (induction "is" arbitrary: w)
  case Nil
  then show ?case by simp
next
  case (Cons i "is")
  from Cons.prems obtain w1 where w1: "cacheStep nodes False i w = Inr w1"
    and rest: "walkCache nodes False is w1 = Inr w'"
    by (auto simp: bind_err_def split: sum.splits)
  from cacheStep_inv [OF w1] obtain n flags where n: "js_get (w_visible w) i = Some n"
    and fl: "flags_of (w_stHeap w (n_state (nodes n) FLAGS)) = Some flags"
    and w1eq: "w1 = route False flags n w"
    by blast
  from Cons.IH [OF rest] obtain ns where ns: "map (js_get (w_visible w1)) is = map Some ns"
    "w_trace w' = w_trace w1 @ map RenderNode (filter (\<lambda>n. \<not> transparent_in (w_stHeap w1) nodes n) ns)"
    "w_transparent w' = w_transparent w1 @ filter (transparent_in (w_stHeap w1) nodes) ns"
    "w_visible w' = w_visible w1" "w_lenVisible w' = w_lenVisible w1"
    "w_stHeap w' = w_stHeap w1" "w_bin w' = w_bin w1" "w_countDestroyed w' = w_countDestroyed w1"
    by blast
  have tr: "transparent_in (w_stHeap w) nodes n = fl_transparent flags"
    using fl by (simp add: transparent_in_def)
  show ?case
    using ns n tr by (intro exI [of _ "n # ns"]) (auto simp: w1eq route_def)
qed

lemma transparent_node_eq: "transparent_node s = transparent_in (stHeap s) (nodeHeap s)"
  by (rule ext) (simp add: transparent_node_def)

lemma renderDrawList_calls:
  assumes "renderDrawList sid False ts s = Inr (s', calls)"
  shows "\<exists>sc sc' vis. sceneStates s sid = Some sc \<and> sceneStates s' sid = Some sc'
           \<and> take (lenVisibleCacheBin sc') (visibleCacheBin sc') = map Some vis
           \<and> calls = opaque_then_transparent s vis
           \<and> (if lenVisibleCacheBin sc > 0
               then map Some vis = take (lenVisibleCacheBin sc) (visibleCacheBin sc)
               else subseq (map Some vis) (take (lenBin sc) (bin sc)))"
proof -
  from assms obtain sc where sc: "sceneStates s sid = Some sc"
    by (auto simp: renderDrawList_def split: option.splits)
  define w0 where "w0 = \<lparr>w_bin = bin sc, w_countDestroyed = 0, w_stHeap = stHeap s, w_trace = [],
                    w_transparent = [], w_visible = visibleCacheBin sc,
                    w_lenVisible = lenVisibleCacheBin sc\<rparr>"
  show ?thesis
  proof (cases "lenVisibleCacheBin sc > 0")
    case True
    with assms sc obtain w where w: "walkCache (nodeHeap s) False [0..<lenVisibleCacheBin sc] w0 = Inr w"
      and s': "s' = s\<lparr>stHeap := w_stHeap w, sceneStates := (sceneStates s)(sid \<mapsto>
                 sc\<lparr>bin := w_bin w, lenBin := lenBin sc, visibleCacheBin := w_visible w,
                    lenVisibleCacheBin := w_lenVisible w\<rparr>)\<rparr>"
      and calls: "calls = w_trace w @ renderTransparent (w_transparent w)"
      by (auto simp: renderDrawList_def Let_def bind_err_def w0_def split: sum.splits)
    from walkCache_inv [OF w] obtain ns where
      ns: "map (js_get (w_visible w0)) [0..<lenVisibleCacheBin sc] = map Some ns"
      and tr: "w_trace w = w_trace w0 @ map RenderNode (filter (\<lambda>n. \<not> transparent_in (w_stHeap w0) (nodeHeap s) n) ns)"
        "w_transparent w = w_transparent w0 @ filter (transparent_in (w_stHeap w0) (nodeHeap s)) ns"
      and same: "w_visible w = w_visible w0" "w_lenVisible w = w_lenVisible w0"
      by blast
    have "\<forall>i<lenVisibleCacheBin sc. js_get (visibleCacheBin sc) i \<noteq> None"
    proof (intro allI impI)
      fix i assume "i < lenVisibleCacheBin sc"
      then have "map (js_get (w_visible w0)) [0..<lenVisibleCacheBin sc] ! i = js_get (visibleCacheBin sc) i"
        by (simp add: w0_def)
      moreover have "map Some ns ! i \<noteq> None"
        using ns \<open>i < lenVisibleCacheBin sc\<close>
        by (metis length_map length_upt minus_nat.diff_0 nth_map option.distinct(1))
      ultimately show "js_get (visibleCacheBin sc) i \<noteq> None" using ns by simp
    qed
    then have "map (js_get (visibleCacheBin sc)) [0..<lenVisibleCacheBin sc]
        = take (lenVisibleCacheBin sc) (visibleCacheBin sc)"
      by (rule map_js_get_upt)
    with ns have vis: "take (lenVisibleCacheBin sc) (visibleCacheBin sc) = map Some ns"
      by (simp add: w0_def)
    obtain sc' where sc': "sceneStates s' sid = Some sc'" "visibleCacheBin sc' = w_visible w"
      "lenVisibleCacheBin sc' = w_lenVisible w"
      by (simp add: s')
    have "calls = opaque_then_transparent s ns"
      using tr calls
      by (simp add: w0_def opaque_then_transparent_def transparent_node_eq renderTransparent_def)
    then show ?thesis
      using sc True vis same sc' by (simp add: w0_def)
  next
    case False
    with assms sc obtain w sc' where w: "walkBin (nodeHeap s) False ts [0..<lenBin sc] w0 = Inr w"
      and sc': "sceneStates s' sid = Some sc'" "visibleCacheBin sc' = w_visible w"
        "lenVisibleCacheBin sc' = w_lenVisible w"
      and calls: "calls = w_trace w @ renderTransparent (w_transparent w)"
      by (auto simp: renderDrawList_def Let_def bind_err_def w0_def split: sum.splits if_splits)
    have inv0: "walk_inv (stHeap s) (nodeHeap s) w0 []"
      using False by (simp add: walk_inv_def w0_def)
    from walkBin_inv [OF w inv0] obtain V where
      V: "walk_inv (stHeap s) (nodeHeap s) w V"
      and sub: "subseq (map Some V) (map (js_get (w_bin w0)) [0..<lenBin sc])"
      and def: "\<forall>i\<in>set [0..<lenBin sc]. js_get (w_bin w0) i \<noteq> None"
      by auto
    have "map (js_get (bin sc)) [0..<lenBin sc] = take (lenBin sc) (bin sc)"
      using def by (intro map_js_get_upt) (simp add: w0_def)
    with sub have sub': "subseq (map Some V) (take (lenBin sc) (bin sc))"
      by (simp add: w0_def)
    have "calls = opaque_then_transparent s V"
      using V calls
      by (simp add: walk_inv_def opaque_then_transparent_def transparent_node_eq renderTransparent_def)
    moreover have "take (lenVisibleCacheBin sc') (visibleCacheBin sc') = map Some V"
      using V sc' by (simp add: walk_inv_def)
    ultimately show ?thesis
      using sc False sub' sc' by simp
  qed
qed

section \<open>Sorting the bin\<close>

lemma sortId_triv: "\<exists>k. r = r\<lparr>n_sortId := k\<rparr>"
  by (rule exI [of _ "n_sortId r"]) simp

lemma sortId_upd_cases:
  "\<exists>j. ((h(n := (h n)\<lparr>n_sortId := k\<rparr>)) m) = (h m)\<lparr>n_sortId := j\<rparr>"
  by (cases "m = n") (auto simp: sortId_triv)

lemma sortIDs_shape:
  "sortIDs xs s = Inr s' \<Longrightarrow>
     \<exists>nh. s' = s\<lparr>nodeHeap := nh\<rparr> \<and> (\<forall>n. \<exists>k. nh n = (nodeHeap s n)\<lparr>n_sortId := k\<rparr>)"
proof (induction xs arbitrary: s)
  case Nil
  then show ?case by (intro exI [of _ "nodeHeap s"]) (simp add: sortId_triv)
next
  case (Cons x xs)
  from Cons.prems obtain n k where x: "x = Some n" and k: "sortId_of s n = Some k"
    and rest: "sortIDs xs (s\<lparr>nodeHeap := (nodeHeap s)(n := (nodeHeap s n)\<lparr>n_sortId := k\<rparr>)\<rparr>) = Inr s'"
    by (auto split: option.splits)
  from Cons.IH [OF rest] obtain nh where
    nh: "s' = s\<lparr>nodeHeap := nh\<rparr>"
      "\<forall>m. \<exists>j. nh m = (((nodeHeap s)(n := (nodeHeap s n)\<lparr>n_sortId := k\<rparr>)) m)\<lparr>n_sortId := j\<rparr>"
    by auto
  have "\<exists>j. nh m = (nodeHeap s m)\<lparr>n_sortId := j\<rparr>" for m
    using nh(2) [rule_format, of m] by (cases "m = n") auto
  with nh(1) show ?case by blast
qed

lemma sortId_of_cong:
  assumes "stHeap s' = stHeap s" and "progHeap s' = progHeap s"
    and "\<forall>n. \<exists>k. nodeHeap s' n = (nodeHeap s n)\<lparr>n_sortId := k\<rparr>"
  shows "sortId_of s' m = sortId_of s m"
proof -
  from assms(3) obtain k where "nodeHeap s' m = (nodeHeap s m)\<lparr>n_sortId := k\<rparr>" by blast
  then show ?thesis using assms(1,2) by (simp add: sortId_of_def split: option.splits)
qed

lemma sortIDs_result:
  "sortIDs xs s = Inr s' \<Longrightarrow>
     None \<notin> set xs
     \<and> (\<forall>n. Some n \<in> set xs \<longrightarrow> Some (n_sortId (nodeHeap s' n)) = sortId_of s n)
     \<and> (\<forall>n. Some n \<notin> set xs \<longrightarrow> nodeHeap s' n = nodeHeap s n)"
proof (induction xs arbitrary: s)
  case Nil
  then show ?case by simp
next
  case (Cons x xs)
  from Cons.prems obtain n k where x: "x = Some n" and k: "sortId_of s n = Some k"
    and rest: "sortIDs xs (s\<lparr>nodeHeap := (nodeHeap s)(n := (nodeHeap s n)\<lparr>n_sortId := k\<rparr>)\<rparr>) = Inr s'"
    by (auto split: option.splits)
  define s1 where "s1 = s\<lparr>nodeHeap := (nodeHeap s)(n := (nodeHeap s n)\<lparr>n_sortId := k\<rparr>)\<rparr>"
  have same: "sortId_of s1 m = sortId_of s m" for m
    by (rule sortId_of_cong) (simp_all add: s1_def sortId_upd_cases del: fun_upd_apply)
  from Cons.IH [OF rest] have ih: "None \<notin> set xs"
    "\<forall>m. Some m \<in> set xs \<longrightarrow> Some (n_sortId (nodeHeap s' m)) = sortId_of s1 m"
    "\<forall>m. Some m \<notin> set xs \<longrightarrow> nodeHeap s' m = nodeHeap s1 m"
    by (simp_all add: s1_def)
  have "Some (n_sortId (nodeHeap s' n)) = sortId_of s n"
  proof (cases "Some n \<in> set xs")
    case True
    then show ?thesis using ih(2) same by simp
  next
    case False
    then have "nodeHeap s' n = nodeHeap s1 n" using ih(3) by simp
    then show ?thesis using k by (simp add: s1_def)
  qed
  moreover have "nodeHeap s' m = nodeHeap s m" if "Some m \<notin> set (x # xs)" for m
    using that ih(3) x by (simp add: s1_def)
  ultimately show ?case
    using ih same x by auto
qed

lemma mset_js_sort_bin: "mset (js_sort_bin nodes xs) = mset xs"
proof -
  have "mset (map Some (List.map_filter (\<lambda>x. x) xs)) + mset (replicate (length (filter (\<lambda>x. x = None) xs)) None)
      = mset xs"
    by (induction xs) (auto split: option.splits)
  then show ?thesis by (simp add: js_sort_bin_def)
qed

text \<open>
  Claim C4, as amended. \<open>_stateSortBins\<close> calls \<open>_createStateStateSortIDs\<close>, not the
  unused \<open>_createStateStateSortIDsNew\<close>: when the sort ids are dirty, every node of the bin
  gets the key \<open>layer priority * 100000 + program id\<close>, in which texture and geometry take
  no part and nothing is renumbered by a walk; otherwise the ids stay as they are. The
  bin, cut to \<open>lenBin\<close>, is then sorted by ascending key.
\<close>

theorem sort_key_layer_program:
  assumes "stateSortBins sid s = Inr s'" and "sceneStates s sid = Some sc"
  shows "\<exists>sc' ns. sceneStates s' sid = Some sc'
           \<and> (if stateSortIDsDirty sc
               then \<forall>n. Some n \<in> set (bin sc) \<longrightarrow>
                      (\<exists>core. layer_of (stHeap s (n_state (nodeHeap s n) LAYER)) = Some core
                         \<and> n_sortId (nodeHeap s' n)
                             = ly_priority core * 100000 + p_id (progHeap s (n_program (nodeHeap s n))))
               else nodeHeap s' = nodeHeap s)
           \<and> bin sc' = map Some ns @ replicate (length (bin sc') - length ns) None
           \<and> sorted (map (\<lambda>n. n_sortId (nodeHeap s' n)) ns)
           \<and> mset (bin sc') = mset (js_set_length (bin sc) (lenBin sc))
           \<and> \<not> stateSortIDsDirty sc' \<and> lenVisibleCacheBin sc' = 0"
proof -
  from assms obtain s1 where s1: "(if stateSortIDsDirty sc then sortIDs (bin sc) s else Inr s) = Inr s1"
    and s': "s' = s1\<lparr>sceneStates := (sceneStates s1)(sid \<mapsto>
                   sc\<lparr>stateSortIDsDirty := False,
                      bin := js_sort_bin (nodeHeap s1) (js_set_length (bin sc) (lenBin sc)),
                      lenVisibleCacheBin := 0\<rparr>)\<rparr>"
    by (auto simp: stateSortBins_def bind_err_def split: sum.splits)
  define ns where "ns = sort_key (\<lambda>n. n_sortId (nodeHeap s1 n))
                          (List.map_filter (\<lambda>x. x) (js_set_length (bin sc) (lenBin sc)))"
  define sc' where "sc' = sc\<lparr>stateSortIDsDirty := False,
                      bin := js_sort_bin (nodeHeap s1) (js_set_length (bin sc) (lenBin sc)),
                      lenVisibleCacheBin := 0\<rparr>"
  have keys: "if stateSortIDsDirty sc
               then \<forall>n. Some n \<in> set (bin sc) \<longrightarrow>
                      (\<exists>core. layer_of (stHeap s (n_state (nodeHeap s n) LAYER)) = Some core
                         \<and> n_sortId (nodeHeap s' n)
                             = ly_priority core * 100000 + p_id (progHeap s (n_program (nodeHeap s n))))
               else nodeHeap s' = nodeHeap s"
  proof (cases "stateSortIDsDirty sc")
    case True
    with s1 have "sortIDs (bin sc) s = Inr s1" by simp
    from sortIDs_result [OF this]
    have "\<forall>n. Some n \<in> set (bin sc) \<longrightarrow> Some (n_sortId (nodeHeap s1 n)) = sortId_of s n"
      by simp
    then show ?thesis using True
      by (auto simp: s' sortId_of_def split: option.splits)
  next
    case False
    with s1 show ?thesis by (simp add: s')
  qed
  have "bin sc' = map Some ns @ replicate (length (bin sc') - length ns) None"
    by (simp add: sc'_def js_sort_bin_def ns_def)
  moreover have "sorted (map (\<lambda>n. n_sortId (nodeHeap s' n)) ns)"
    by (simp add: ns_def s' sorted_sort_key)
  moreover have "mset (bin sc') = mset (js_set_length (bin sc) (lenBin sc))"
    by (simp add: sc'_def mset_js_sort_bin)
  moreover have "sceneStates s' sid = Some sc'"
    by (simp add: s' sc'_def)
  ultimately show ?thesis
    using keys by (intro exI [of _ sc'] exI [of _ ns]) (simp add: sc'_def)
qed

section \<open>Frames, hashes, unbinding, removal\<close>

lemma transparent_node_cong:
  assumes "stHeap s' = stHeap s" and "\<forall>n. n_state (nodeHeap s' n) = n_state (nodeHeap s n)"
  shows "opaque_then_transparent s' vis = opaque_then_transparent s vis"
proof -
  have "transparent_node s' = transparent_node s"
    using assms by (intro ext) (simp add: transparent_node_def transparent_in_def)
  then show ?thesis by (simp add: opaque_then_transparent_def)
qed

lemma stateSortBins_frame:
  assumes "stateSortBins sid s = Inr s'"
  shows "stHeap s' = stHeap s \<and> (\<forall>n. n_state (nodeHeap s' n) = n_state (nodeHeap s n))
           \<and> states s' = states s \<and> compileMode s' = compileMode s"
proof -
  from assms obtain sc where sc: "sceneStates s sid = Some sc"
    by (auto simp: stateSortBins_def split: option.splits)
  with assms obtain s1 where s1: "(if stateSortIDsDirty sc then sortIDs (bin sc) s else Inr s) = Inr s1"
    by (cases "if stateSortIDsDirty sc then sortIDs (bin sc) s else Inr s")
       (simp_all add: stateSortBins_def bind_err_def)
  with assms sc have s': "stHeap s' = stHeap s1" "nodeHeap s' = nodeHeap s1" "states s' = states s1"
      "compileMode s' = compileMode s1"
    by (auto simp: stateSortBins_def bind_err_def)
  have "\<exists>nh. s1 = s\<lparr>nodeHeap := nh\<rparr> \<and> (\<forall>n. \<exists>k. nh n = (nodeHeap s n)\<lparr>n_sortId := k\<rparr>)"
  proof (cases "stateSortIDsDirty sc")
    case True
    with s1 show ?thesis by (auto dest: sortIDs_shape)
  next
    case False
    with s1 show ?thesis by (intro exI [of _ "nodeHeap s"]) (simp add: sortId_triv)
  qed
  then obtain nh where nh: "s1 = s\<lparr>nodeHeap := nh\<rparr>" "\<forall>n. \<exists>k. nh n = (nodeHeap s n)\<lparr>n_sortId := k\<rparr>"
    by blast
  have "n_state (nh n) = n_state (nodeHeap s n)" for n
    using nh(2) [rule_format, of n] by auto
  then show ?thesis using s' nh(1) by simp
qed

lemma bind_err_Inr: "bind_err m f = Inr y \<Longrightarrow> \<exists>x. m = Inr x \<and> f x = Inr y"
  by (cases m) (simp_all add: bind_err_def)

lemma renderFrame_Inr:
  assumes "renderFrame ts s = Inr (s', calls)"
  shows "\<exists>sid sc s1 sc3 s3. states s = Some sid \<and> sceneStates s sid = Some sc
           \<and> (if stateSortDirty sc
               then stateSortBins sid (s\<lparr>sceneStates := (sceneStates s)(sid \<mapsto> sc\<lparr>pickBufDirty := True\<rparr>)\<rparr>)
               else Inr (s\<lparr>sceneStates := (sceneStates s)(sid \<mapsto> sc\<lparr>pickBufDirty := True\<rparr>)\<rparr>))
              = Inr s1
           \<and> renderDrawList sid False ts (s1\<lparr>sceneStates := (sceneStates s1)(sid \<mapsto> sc3)\<rparr>)
              = Inr (s3, calls)
           \<and> s' = s3\<lparr>states := None\<rparr>"
proof -
  from assms obtain sid sc where sid: "states s = Some sid" "sceneStates s sid = Some sc"
    by (auto simp: renderFrame_def split: option.splits)
  let ?s0 = "s\<lparr>sceneStates := (sceneStates s)(sid \<mapsto> sc\<lparr>pickBufDirty := True\<rparr>)\<rparr>"
  let ?m = "if stateSortDirty sc then stateSortBins sid ?s0 else Inr ?s0"
  from assms sid obtain s1 where s1: "?m = Inr s1"
    and k: "(case sceneStates s1 sid of
               None \<Rightarrow> Inl TypeError
             | Some sc1 \<Rightarrow>
                 let drawCallListDirty = (stateSortDirty sc \<or> compileMode s1 = Some COMPILE_SCENE
                                            \<or> compileMode s1 = Some COMPILE_BRANCH);
                     drawCallFuncsDirty = (compileMode s1 = Some COMPILE_SCENE);
                     sc2 = (if stateSortDirty sc then sc1\<lparr>stateSortDirty := False\<rparr> else sc1);
                     sc3 = (if drawCallListDirty
                            then sc2\<lparr>pickCallListDirty := True,
                                     pickCallFuncsDirty := drawCallFuncsDirty\<rparr>
                            else sc2);
                     s2 = s1\<lparr>sceneStates := (sceneStates s1)(sid \<mapsto> sc3)\<rparr>
                 in bind_err (renderDrawList sid False ts s2) (\<lambda>(s3, calls).
                      Inr (s3\<lparr>states := None\<rparr>, calls))) = Inr (s', calls)"
    unfolding renderFrame_def by (auto simp: Let_def dest!: bind_err_Inr)
  from k obtain sc1 where sc1: "sceneStates s1 sid = Some sc1"
    by (auto split: option.splits)
  from k sc1 obtain sc3 r where
    rd: "renderDrawList sid False ts (s1\<lparr>sceneStates := (sceneStates s1)(sid \<mapsto> sc3)\<rparr>) = Inr r"
    and r: "(case r of (s3, calls) \<Rightarrow> Inr (s3\<lparr>states := None\<rparr>, calls)) = Inr (s', calls)"
    by (auto simp: Let_def dest!: bind_err_Inr)
  obtain s3 c where "r = (s3, c)" by (cases r)
  with r rd sid s1 show ?thesis by auto
qed

lemma renderFrame_calls:
  assumes "renderFrame ts s = Inr (s', calls)"
  shows "\<exists>vis. calls = opaque_then_transparent s vis"
proof -
  from renderFrame_Inr [OF assms] obtain sid sc s1 sc3 s3 where
    sid: "states s = Some sid" "sceneStates s sid = Some sc"
    and s1: "(if stateSortDirty sc
               then stateSortBins sid (s\<lparr>sceneStates := (sceneStates s)(sid \<mapsto> sc\<lparr>pickBufDirty := True\<rparr>)\<rparr>)
               else Inr (s\<lparr>sceneStates := (sceneStates s)(sid \<mapsto> sc\<lparr>pickBufDirty := True\<rparr>)\<rparr>))
              = Inr s1"
    and rd: "renderDrawList sid False ts (s1\<lparr>sceneStates := (sceneStates s1)(sid \<mapsto> sc3)\<rparr>) = Inr (s3, calls)"
    by blast
  have fr: "stHeap s1 = stHeap s \<and> (\<forall>n. n_state (nodeHeap s1 n) = n_state (nodeHeap s n))"
  proof (cases "stateSortDirty sc")
    case True
    with s1 have "stateSortBins sid (s\<lparr>sceneStates := (sceneStates s)(sid \<mapsto> sc\<lparr>pickBufDirty := True\<rparr>)\<rparr>) = Inr s1"
      by simp
    from stateSortBins_frame [OF this] show ?thesis by simp
  next
    case False
    with s1 show ?thesis by auto
  qed
  from renderDrawList_calls [OF rd] obtain vis where
    "calls = opaque_then_transparent (s1\<lparr>sceneStates := (sceneStates s1)(sid \<mapsto> sc3)\<rparr>) vis"
    by blast
  moreover have "opaque_then_transparent (s1\<lparr>sceneStates := (sceneStates s1)(sid \<mapsto> sc3)\<rparr>) vis
      = opaque_then_transparent s vis"
    using fr by (intro transparent_node_cong) simp_all
  ultimately show ?thesis by auto
qed

text \<open>
  Claim C6. A pass of \<open>_renderDrawList\<close> that is not picking leaves in the visible cache
  the nodes \<open>vis\<close> that passed its filters, in the order in which it met them (the cached
  order, or a subsequence of the bin), and its calls are: the opaque nodes of \<open>vis\<close> in
  that order, then blending enabled, the transparent nodes of \<open>vis\<close> in that order, and
  blending disabled. The calls of \<open>renderFrame\<close> have this form as well, whatever the sort
  has done to the bin before.
\<close>

theorem transparent_after_opaque:
  "(renderDrawList sid False ts s = Inr (s', calls) \<longrightarrow>
      (\<exists>sc sc' vis. sceneStates s sid = Some sc \<and> sceneStates s' sid = Some sc'
         \<and> take (lenVisibleCacheBin sc') (visibleCacheBin sc') = map Some vis
         \<and> calls = opaque_then_transparent s vis
         \<and> (if lenVisibleCacheBin sc > 0
             then map Some vis = take (lenVisibleCacheBin sc) (visibleCacheBin sc)
             else subseq (map Some vis) (take (lenBin sc) (bin sc)))))
   \<and> (renderFrame ts s = Inr (s', calls) \<longrightarrow> (\<exists>vis. calls = opaque_then_transparent s vis))"
  using renderDrawList_calls [of sid ts s s' calls] renderFrame_calls [of ts s s' calls]
  by blast

text \<open>
  Claim C5. With a scene bound and the eight soup variables defined, the scene hash is the
  canvas id and the hashes of clip, colour transform, lights, morph, texture, shader,
  renderer and geometry state, in this order, with \<open>";"\<close> between them (an undefined hash
  contributing the empty string).
\<close>

theorem scene_hash_order:
  assumes "states s = Some sid" and "sceneStates s sid = Some sc"
    and "soup s CLIPS = Some clip" and "soup s COLORTRANS = Some colortrans"
    and "soup s LIGHTS = Some lights" and "soup s MORPH = Some morph"
    and "soup s TEXTURE = Some tex" and "soup s SHADER = Some shader"
    and "soup s RENDERER = Some renderer" and "soup s GEO = Some geo"
  shows "getSceneHash s =
     Inr (canvasId sc @ '';'' @ js_str (s_hash (stHeap s clip)) @ '';''
          @ js_str (s_hash (stHeap s colortrans)) @ '';'' @ js_str (s_hash (stHeap s lights)) @ '';''
          @ js_str (s_hash (stHeap s morph)) @ '';'' @ js_str (s_hash (stHeap s tex)) @ '';''
          @ js_str (s_hash (stHeap s shader)) @ '';'' @ js_str (s_hash (stHeap s renderer)) @ '';''
          @ js_str (s_hash (stHeap s geo)))"
  using assms by (simp add: getSceneHash_def soup_hash_def)

text \<open>
  Claim C9. A \<open>renderFrame\<close> that returns has unbound the scene, so the next
  \<open>renderFrame\<close> throws the fatal error "No scene bound".
\<close>

theorem renderFrame_unbinds:
  "renderFrame tagSelector s = Inr (s', calls) \<Longrightarrow>
     states s' = None \<and> renderFrame tagSelector' s' = Inl (FatalError ''No scene bound'')"
  by (auto simp: renderFrame_def bind_err_def Let_def split: option.splits sum.splits prod.splits if_splits)


section \<open>Setters, counts and removal\<close>






lemma nodeCount_triv: "\<exists>k. r = r\<lparr>s_nodeCount := k\<rparr>"
  by (rule exI [of _ "s_nodeCount r"]) simp

lemma stateMap_triv: "\<exists>sm. sc = sc\<lparr>stateMap := sm\<rparr>"
  by (rule exI [of _ "stateMap sc"]) simp

lemma counts_only_refl: "counts_only s (stHeap s) (sceneStates s)"
  by (auto simp: counts_only_def nodeCount_triv stateMap_triv split: option.splits)

lemma counts_step_refl: "counts_step s s"
  by (simp add: counts_step_def counts_only_refl)

lemma counts_only_trans:
  assumes "counts_only s h m" and "counts_only (s\<lparr>stHeap := h, sceneStates := m\<rparr>) h' m'"
  shows "counts_only s h' m'"
  unfolding counts_only_def
proof (intro conjI allI)
  fix a
  from assms(1) obtain k where "h a = (stHeap s a)\<lparr>s_nodeCount := k\<rparr>"
    unfolding counts_only_def by blast
  moreover from assms(2) obtain k' where "h' a = (h a)\<lparr>s_nodeCount := k'\<rparr>"
    unfolding counts_only_def by auto
  ultimately show "\<exists>k. h' a = (stHeap s a)\<lparr>s_nodeCount := k\<rparr>" by auto
next
  fix sid
  show "case sceneStates s sid of None \<Rightarrow> m' sid = None
        | Some sc \<Rightarrow> \<exists>sm. m' sid = Some (sc\<lparr>stateMap := sm\<rparr>)"
  proof (cases "sceneStates s sid")
    case None
    with assms show ?thesis
      by (auto simp: counts_only_def split: option.splits dest!: spec [of _ sid])
  next
    case (Some sc)
    with assms(1) obtain sm where "m sid = Some (sc\<lparr>stateMap := sm\<rparr>)"
      by (auto simp: counts_only_def split: option.splits dest!: spec [of _ sid])
    with assms(2) Some show ?thesis
      by (auto simp: counts_only_def split: option.splits dest!: spec [of _ sid])
  qed
qed

lemma counts_step_trans:
  assumes "counts_step s s1" and "counts_step s1 s2"
  shows "counts_step s s2"
proof -
  from assms have e1: "s1 = s\<lparr>stHeap := stHeap s1, sceneStates := sceneStates s1\<rparr>"
    and e2: "s2 = s1\<lparr>stHeap := stHeap s2, sceneStates := sceneStates s2\<rparr>"
    and c1: "counts_only s (stHeap s1) (sceneStates s1)"
    and c2: "counts_only s1 (stHeap s2) (sceneStates s2)"
    by (simp_all add: counts_step_def)
  from c2 e1 have "counts_only (s\<lparr>stHeap := stHeap s1, sceneStates := sceneStates s1\<rparr>)
      (stHeap s2) (sceneStates s2)"
    by simp
  with c1 have "counts_only s (stHeap s2) (sceneStates s2)"
    by (rule counts_only_trans)
  moreover have "s2 = s\<lparr>stHeap := stHeap s2, sceneStates := sceneStates s2\<rparr>"
    by (subst e2, subst e1) simp
  ultimately show ?thesis by (simp add: counts_step_def)
qed

lemma releaseState_shape:
  assumes "releaseState a s = Inr s'"
  shows "counts_step s s'"
proof -
  define h1 where "h1 = (stHeap s)(a := (stHeap s a)\<lparr>s_nodeCount := s_nodeCount (stHeap s a) - 1\<rparr>)"
  have h1: "\<forall>b. \<exists>k. h1 b = (stHeap s b)\<lparr>s_nodeCount := k\<rparr>"
    by (auto simp: h1_def nodeCount_triv)
  have c1: "counts_only s h1 (sceneStates s)"
    using h1 by (auto simp: counts_only_def stateMap_triv split: option.splits)
  have c2: "counts_only s h1 ((sceneStates s)(sid \<mapsto> sc\<lparr>stateMap := sm\<rparr>))"
    if "sceneStates s sid = Some sc" for sid sc sm
    using h1 that by (auto simp: counts_only_def stateMap_triv split: option.splits)
  from assms show ?thesis
    using c1 c2 counts_only_refl [of s]
    by (auto simp: releaseState_def Let_def set_typeMap_def h1_def [symmetric] counts_step_def
             split: option.splits if_splits)
qed

lemma releaseStates_shape:
  "releaseStates as s = Inr s' \<Longrightarrow> counts_step s s'"
proof (induction as arbitrary: s)
  case Nil
  then show ?case by (simp add: counts_step_refl)
next
  case (Cons a as)
  from Cons.prems obtain s1 where "releaseState a s = Inr s1" "releaseStates as s1 = Inr s'"
    by (auto dest!: bind_err_Inr)
  then show ?case
    using Cons.IH releaseState_shape counts_step_trans by blast
qed

lemma counts_step_cong:
  assumes "counts_step s s'" and "stHeap t = stHeap s" and "sceneStates t = sceneStates s"
    and "t' = t\<lparr>stHeap := stHeap s', sceneStates := sceneStates s'\<rparr>"
  shows "counts_step t t'"
  using assms by (simp add: counts_step_def counts_only_def)

lemma destroyNode_shape:
  assumes "destroyNode n s = Inr s'"
  shows "counts_step (mark_destroyed [n] s) s'"
proof -
  define s2 where "s2 = releaseProgram (n_program (nodeHeap s n))
      (s\<lparr>nodeHeap := (nodeHeap s)(n := (nodeHeap s n)\<lparr>n_destroyed := True\<rparr>)\<rparr>)"
  have "nodeHeap s2 = (\<lambda>m. if m \<in> set [n] then (nodeHeap s m)\<lparr>n_destroyed := True\<rparr> else nodeHeap s m)"
    by (auto simp: s2_def releaseProgram_def)
  moreover have "progHeap s2 = (\<lambda>a. (progHeap s a)\<lparr>p_refCount := p_refCount (progHeap s a)
                      - int (length (filter (\<lambda>n. n_program (nodeHeap s n) = a) [n]))\<rparr>)"
    by (auto simp: s2_def releaseProgram_def)
  ultimately have "s2 = mark_destroyed [n] s"
    by (simp add: s2_def releaseProgram_def mark_destroyed_def)
  moreover from assms have "releaseStates (map (n_state (nodeHeap s2 n)) node_cats) s2 = Inr s'"
    by (simp add: destroyNode_def Let_def s2_def)
  ultimately show ?thesis
    using releaseStates_shape by auto
qed

lemma mark_destroyed_Cons:
  assumes "counts_step (mark_destroyed [n] s) s1"
  shows "mark_destroyed ns s1
     = (mark_destroyed (n # ns) s)\<lparr>stHeap := stHeap s1, sceneStates := sceneStates s1\<rparr>"
proof -
  from assms have s1: "s1 = (mark_destroyed [n] s)\<lparr>stHeap := stHeap s1, sceneStates := sceneStates s1\<rparr>"
    by (simp add: counts_step_def)
  have nh: "nodeHeap s1 = (\<lambda>m. if m = n then (nodeHeap s m)\<lparr>n_destroyed := True\<rparr> else nodeHeap s m)"
    by (subst s1) (auto simp: mark_destroyed_def)
  have ph: "progHeap s1 = (\<lambda>a. (progHeap s a)\<lparr>p_refCount := p_refCount (progHeap s a)
                      - int (length (filter (\<lambda>n. n_program (nodeHeap s n) = a) [n]))\<rparr>)"
    by (subst s1) (auto simp: mark_destroyed_def)
  have prog: "n_program (nodeHeap s1 m) = n_program (nodeHeap s m)" for m
    by (simp add: nh)
  have 1: "nodeHeap (mark_destroyed ns s1) = nodeHeap (mark_destroyed (n # ns) s)"
    by (auto simp: mark_destroyed_def nh)
  have 2: "progHeap (mark_destroyed ns s1) = progHeap (mark_destroyed (n # ns) s)"
    by (rule ext) (simp add: mark_destroyed_def prog, simp add: ph)
  show ?thesis
    apply (rule drawlist.equality)
    using 1 2 apply (simp_all)
    apply (subst s1, simp add: mark_destroyed_def)+
    done
qed

lemma mark_destroyed_Nil: "mark_destroyed [] s = s"
  by (simp add: mark_destroyed_def)

lemma destroyNodes_shape:
  "destroyNodes ns s = Inr s' \<Longrightarrow> counts_step (mark_destroyed ns s) s'"
proof (induction ns arbitrary: s)
  case Nil
  then show ?case by (simp add: mark_destroyed_Nil counts_step_refl)
next
  case (Cons n ns)
  from Cons.prems obtain s1 where s1: "destroyNode n s = Inr s1" and rest: "destroyNodes ns s1 = Inr s'"
    by (auto dest!: bind_err_Inr)
  have c1: "counts_step (mark_destroyed [n] s) s1"
    using s1 by (rule destroyNode_shape)
  have c2: "counts_step (mark_destroyed ns s1) s'"
    using rest by (rule Cons.IH)
  have eq: "mark_destroyed ns s1
     = (mark_destroyed (n # ns) s)\<lparr>stHeap := stHeap s1, sceneStates := sceneStates s1\<rparr>"
    using c1 by (rule mark_destroyed_Cons)
  have "counts_step (mark_destroyed (n # ns) s) (mark_destroyed ns s1)"
    unfolding eq using c1 by (simp add: counts_step_def counts_only_def mark_destroyed_def)
  then show ?case using c2 by (rule counts_step_trans)
qed

lemma removeGeometry_shape:
  assumes "removeGeometry sceneId ident s = Inr s'" and "sceneStates s sceneId = Some sc"
    and "geoNodesMap sc (key_of ident) = Some (Some nodes)"
  shows "\<exists>s1 sc1. counts_step (mark_destroyed nodes s) s1 \<and> sceneStates s1 sceneId = Some sc1
           \<and> s' = s1\<lparr>sceneStates := (sceneStates s1)(sceneId \<mapsto>
                      sc1\<lparr>geoNodesMap := (geoNodesMap sc1)(key_of ident \<mapsto> None),
                          lenVisibleCacheBin := 0\<rparr>)\<rparr>"
proof -
  from assms obtain s1 where s1: "destroyNodes nodes s = Inr s1"
    by (auto simp: removeGeometry_def dest!: bind_err_Inr)
  with assms obtain sc1 where "sceneStates s1 sceneId = Some sc1"
    by (auto simp: removeGeometry_def bind_err_def split: option.splits)
  with assms s1 show ?thesis
    using destroyNodes_shape [OF s1] by (auto simp: removeGeometry_def bind_err_def)
qed

lemma counts_step_scene:
  assumes "counts_step s s'" and "sceneStates s sid = Some sc"
  shows "\<exists>sm. sceneStates s' sid = Some (sc\<lparr>stateMap := sm\<rparr>)"
  using assms by (auto simp: counts_step_def counts_only_def split: option.splits dest!: spec [of _ sid])

lemma counts_step_data:
  assumes "counts_step s s'"
  shows "s_data (stHeap s' a) = s_data (stHeap s a)" and "nodeHeap s' = nodeHeap s"
proof -
  from assms obtain k where "stHeap s' a = (stHeap s a)\<lparr>s_nodeCount := k\<rparr>"
    by (auto simp: counts_step_def counts_only_def)
  then show "s_data (stHeap s' a) = s_data (stHeap s a)" by simp
  from assms have "s' = s\<lparr>stHeap := stHeap s', sceneStates := sceneStates s'\<rparr>"
    by (simp add: counts_step_def)
  then show "nodeHeap s' = nodeHeap s"
    by (metis drawlist.select_convs(14) drawlist.surjective drawlist.update_convs(12,5))
qed

lemma rendered_append: "rendered (xs @ ys) = rendered xs @ rendered ys"
  by (induction xs rule: rendered.induct) simp_all

lemma rendered_map: "rendered (map RenderNode ns) = ns"
  by (induction ns) simp_all

lemma rendered_transparent: "rendered (renderTransparent ns) = ns"
  by (simp add: renderTransparent_def rendered_append rendered_map)

lemma walkStep_live:
  assumes "walkStep nodes picking ts i w = Inr w'" and "live_walk nodes w"
  shows "live_walk nodes w'"
proof -
  from assms(1) obtain n where n: "js_get (w_bin w) i = Some n"
    by (auto simp: walkStep_def split: option.splits)
  show ?thesis
  proof (cases "n_destroyed (nodes n)")
    case True
    with assms n show ?thesis by (auto simp: walkStep_def live_walk_def)
  next
    case False
    obtain h m where tm: "tag_match ts (n_state (nodes n) TAG)
        (w_stHeap (if w_countDestroyed w > 0
                      then w\<lparr>w_bin := js_array_set (w_bin w) i
                                         (js_get (w_bin w) (i + w_countDestroyed w))\<rparr>
                      else w)) = (h, m)"
      by fastforce
    from assms n False tm show ?thesis
      by (auto simp: walkStep_def live_walk_def Let_def route_def rendered_append
               split: option.splits if_splits)
  qed
qed

lemma walkBin_live:
  "walkBin nodes picking ts is w = Inr w' \<Longrightarrow> live_walk nodes w \<Longrightarrow> live_walk nodes w'"
proof (induction "is" arbitrary: w)
  case Nil
  then show ?case by simp
next
  case (Cons i "is")
  from Cons.prems(1) obtain w1 where "walkStep nodes picking ts i w = Inr w1"
    "walkBin nodes picking ts is w1 = Inr w'"
    by (auto dest!: bind_err_Inr)
  then show ?case using Cons.IH Cons.prems(2) walkStep_live by blast
qed

lemma renderDrawList_walk_live:
  assumes "renderDrawList sid picking ts s = Inr (s', calls)" and "sceneStates s sid = Some sc"
    and "lenVisibleCacheBin sc = 0"
  shows "\<forall>n\<in>set (rendered calls). \<not> n_destroyed (nodeHeap s n)"
proof -
  let ?w0 = "\<lparr>w_bin = bin sc, w_countDestroyed = 0, w_stHeap = stHeap s, w_trace = [],
                    w_transparent = [], w_visible = visibleCacheBin sc,
                    w_lenVisible = 0\<rparr>"
  from assms obtain w where w: "walkBin (nodeHeap s) picking ts [0..<lenBin sc] ?w0 = Inr w"
    by (auto simp: renderDrawList_def Let_def dest!: bind_err_Inr)
  with assms have calls: "calls = w_trace w @ renderTransparent (w_transparent w)"
    by (auto simp: renderDrawList_def Let_def bind_err_def split: if_splits)
  have "live_walk (nodeHeap s) ?w0" by (simp add: live_walk_def)
  with w have "live_walk (nodeHeap s) w" by (rule walkBin_live)
  with calls show ?thesis
    by (auto simp: live_walk_def rendered_append rendered_transparent)
qed

lemma renderDrawList_frame:
  assumes "renderDrawList sid picking ts s = Inr (s', calls)"
  shows "\<exists>sc'. s' = s\<lparr>stHeap := stHeap s', sceneStates := (sceneStates s)(sid \<mapsto> sc')\<rparr>"
  using assms
  by (auto simp: renderDrawList_def Let_def split: option.splits dest!: bind_err_Inr)

lemma paintNodes_uncovered:
  "\<forall>n\<in>set rs. \<not> raster n p \<Longrightarrow> paintNodes raster rs k buf p = buf p"
  by (induction rs arbitrary: k buf) simp_all

lemma pick_clean:
  assumes "sceneStates s sid = Some sc" and "\<not> pickCallListDirty sc" and "\<not> pickBufDirty sc"
    and "pickBuf sc = Some buf"
  shows "pick raster sid x y ts s =
           Inr (case pickNameState_at (pickNameStates sc) (buf (x, y)) of
                  None \<Rightarrow> None
                | Some nameState \<Rightarrow> Some (name_of (stHeap s nameState)), s)"
proof -
  have "(sceneStates s)(sid \<mapsto> sc) = sceneStates s"
    using assms(1) by (rule map_upd_triv)
  then show ?thesis
    using assms by (simp add: pick_def Let_def bind_err_def)
qed

section \<open>Picking after a removal\<close>

lemma pick_dirty:
  assumes "sceneStates s sid = Some sc" and "pickCallListDirty sc \<or> pickBufDirty sc \<or> pickBuf sc = None"
    and "pick raster sid x y ts s = Inr (hit, s2)"
  shows "\<exists>sc0 s1 calls sc2. renderDrawList sid True ts (s\<lparr>sceneStates := (sceneStates s)(sid \<mapsto> sc0)\<rparr>) = Inr (s1, calls)
           \<and> lenVisibleCacheBin sc0 = lenVisibleCacheBin sc
           \<and> sceneStates s2 sid = Some sc2
           \<and> pickBuf sc2 = Some (paintNodes raster (rendered calls) 0 clearBuf)
           \<and> pickNameStates sc2 = map (\<lambda>n. n_state (nodeHeap s2 n) NAME) (rendered calls)
           \<and> nodeHeap s2 = nodeHeap s
           \<and> hit = (case pickNameState_at (pickNameStates sc2)
                            (paintNodes raster (rendered calls) 0 clearBuf (x, y)) of
                      None \<Rightarrow> None
                    | Some nameState \<Rightarrow> Some (name_of (stHeap s2 nameState)))"
proof -
  define sc0 where "sc0 = (case pickBuf sc of
                       None \<Rightarrow> sc\<lparr>pickBuf := Some clearBuf, pickBufDirty := True\<rparr>
                     | Some b \<Rightarrow> sc)"
  have dirty: "pickCallListDirty sc0 \<or> pickBufDirty sc0"
    using assms(2) by (auto simp: sc0_def split: option.splits)
  have len: "lenVisibleCacheBin sc0 = lenVisibleCacheBin sc"
    by (simp add: sc0_def split: option.splits)
  let ?s0 = "s\<lparr>sceneStates := (sceneStates s)(sid \<mapsto> sc0)\<rparr>"
  from assms(1,3) dirty obtain s1' where pp: "pickPass raster sid ts ?s0 = Inr s1'"
    and rd: "(case sceneStates s1' sid of
                 None \<Rightarrow> Inl TypeError
               | Some sc2 \<Rightarrow>
                  (case pickBuf sc2 of
                     None \<Rightarrow> Inl TypeError
                   | Some buf \<Rightarrow>
                       Inr (case pickNameState_at (pickNameStates sc2) (buf (x, y)) of
                              None \<Rightarrow> None
                            | Some nameState \<Rightarrow> Some (name_of (stHeap s1' nameState)),
                            s1'))) = Inr (hit, s2)"
    by (auto simp: pick_def Let_def sc0_def [symmetric] dest!: bind_err_Inr)
  from pp obtain r where r: "renderDrawList sid True ts ?s0 = Inr r"
    by (auto simp: pickPass_def dest!: bind_err_Inr)
  obtain s1 calls where rc: "r = (s1, calls)" by (cases r)
  from renderDrawList_frame [OF r [unfolded rc]] obtain sc' where
    s1: "s1 = ?s0\<lparr>stHeap := stHeap s1, sceneStates := (sceneStates ?s0)(sid \<mapsto> sc')\<rparr>"
    by blast
  have sc1: "sceneStates s1 sid = Some sc'" by (subst s1) simp
  have nh: "nodeHeap s1 = nodeHeap s" by (subst s1) simp
  from pp r rc sc1 have s1': "s1' = s1\<lparr>sceneStates := (sceneStates s1)(sid \<mapsto>
                  sc'\<lparr>pickBuf := Some (paintNodes raster (rendered calls) 0 clearBuf),
                     pickNameStates := map (\<lambda>n. n_state (nodeHeap s1 n) NAME) (rendered calls),
                     pickCallListDirty := False,
                     pickCallFuncsDirty := False,
                     pickBufDirty := False\<rparr>)\<rparr>"
    by (simp add: pickPass_def bind_err_def)
  define sc2 where "sc2 = sc'\<lparr>pickBuf := Some (paintNodes raster (rendered calls) 0 clearBuf),
                     pickNameStates := map (\<lambda>n. n_state (nodeHeap s1 n) NAME) (rendered calls),
                     pickCallListDirty := False,
                     pickCallFuncsDirty := False,
                     pickBufDirty := False\<rparr>"
  have sc2: "sceneStates s1' sid = Some sc2" "nodeHeap s1' = nodeHeap s"
    using s1' nh by (simp_all add: sc2_def)
  from rd sc2 have eq: "s2 = s1'"
    and hit: "hit = (case pickNameState_at (pickNameStates sc2)
                            (paintNodes raster (rendered calls) 0 clearBuf (x, y)) of
                      None \<Rightarrow> None
                    | Some nameState \<Rightarrow> Some (name_of (stHeap s1' nameState)))"
    by (auto simp: sc2_def)
  have "hit = (case pickNameState_at (pickNameStates sc2)
                            (paintNodes raster (rendered calls) 0 clearBuf (x, y)) of
                      None \<Rightarrow> None
                    | Some nameState \<Rightarrow> Some (name_of (stHeap s2 nameState)))"
    unfolding eq by (rule hit)
  with sc2 len r rc nh eq show ?thesis
    apply (rule_tac x = sc0 in exI)
    apply (rule_tac x = s1 in exI)
    apply (rule_tac x = calls in exI)
    apply (rule_tac x = sc2 in exI)
    apply (simp add: sc2_def)
    done
qed

text \<open>
  Claim C7, as amended. After \<open>removeGeometry\<close> has destroyed the nodes of an id: a \<open>pick\<close>
  that renders its pick pass (a dirty flag is set, or there is no pick buffer yet) walks
  the bin, since the visible cache was reset, and skips the destroyed nodes, so they are
  neither painted nor entered in \<open>pickNameStates\<close>, and where no rendered node covers the
  position the pick is no hit; a \<open>pick\<close> that finds both flags clear renders nothing
  and returns what it returned before the removal.
\<close>

theorem pick_after_remove:
  assumes "removeGeometry sceneId ident s = Inr s1" and "sceneStates s sceneId = Some sc"
    and "geoNodesMap sc (key_of ident) = Some (Some nodes)"
  shows "(pickCallListDirty sc \<or> pickBufDirty sc \<or> pickBuf sc = None \<longrightarrow>
            (\<forall>hit s2. pick raster sceneId x y ts s1 = Inr (hit, s2) \<longrightarrow>
               (\<exists>rs sc2. sceneStates s2 sceneId = Some sc2 \<and> set rs \<inter> set nodes = {}
                  \<and> pickBuf sc2 = Some (paintNodes raster rs 0 clearBuf)
                  \<and> pickNameStates sc2 = map (\<lambda>n. n_state (nodeHeap s2 n) NAME) rs
                  \<and> ((\<forall>n\<in>set rs. \<not> raster n (x, y)) \<longrightarrow> hit = None))))
       \<and> (\<not> pickCallListDirty sc \<and> \<not> pickBufDirty sc \<and> pickBuf sc \<noteq> None \<longrightarrow>
            pick raster sceneId x y ts s1
              = (case pick raster sceneId x y ts s of
                   Inl e \<Rightarrow> Inl e
                 | Inr (hit, s') \<Rightarrow> Inr (hit, s1)))"
proof -
  from removeGeometry_shape [OF assms] obtain t sc1 where
    t: "counts_step (mark_destroyed nodes s) t" and sc1: "sceneStates t sceneId = Some sc1"
    and s1: "s1 = t\<lparr>sceneStates := (sceneStates t)(sceneId \<mapsto>
                      sc1\<lparr>geoNodesMap := (geoNodesMap sc1)(key_of ident \<mapsto> None),
                          lenVisibleCacheBin := 0\<rparr>)\<rparr>"
    by blast
  define sc' where "sc' = sc1\<lparr>geoNodesMap := (geoNodesMap sc1)(key_of ident \<mapsto> None),
                          lenVisibleCacheBin := 0\<rparr>"
  have "sceneStates (mark_destroyed nodes s) sceneId = Some sc"
    using assms(2) by (simp add: mark_destroyed_def)
  from counts_step_scene [OF t this] sc1 obtain sm where sm: "sc1 = sc\<lparr>stateMap := sm\<rparr>"
    by auto
  have sc': "sceneStates s1 sceneId = Some sc'" "lenVisibleCacheBin sc' = 0"
    "pickCallListDirty sc' = pickCallListDirty sc" "pickBufDirty sc' = pickBufDirty sc"
    "pickBuf sc' = pickBuf sc" "pickNameStates sc' = pickNameStates sc"
    by (simp_all add: s1 sc'_def sm)
  have nodes1: "nodeHeap s1 = nodeHeap (mark_destroyed nodes s)"
    using counts_step_data(2) [OF t] by (simp add: s1)
  have destroyed: "\<forall>n\<in>set nodes. n_destroyed (nodeHeap s1 n)"
    by (simp add: nodes1 mark_destroyed_def)
  have data: "s_data (stHeap s1 a) = s_data (stHeap s a)" for a
    using counts_step_data(1) [OF t, of a] by (simp add: s1 mark_destroyed_def)
  show ?thesis
  proof (intro conjI impI allI)
    fix hit s2
    assume dirty: "pickCallListDirty sc \<or> pickBufDirty sc \<or> pickBuf sc = None"
      and p: "pick raster sceneId x y ts s1 = Inr (hit, s2)"
    from dirty have "pickCallListDirty sc' \<or> pickBufDirty sc' \<or> pickBuf sc' = None"
      by (simp add: sc')
    from pick_dirty [OF sc'(1) this p] obtain sc0 t1 calls sc2 where
      rd: "renderDrawList sceneId True ts (s1\<lparr>sceneStates := (sceneStates s1)(sceneId \<mapsto> sc0)\<rparr>) = Inr (t1, calls)"
      and len: "lenVisibleCacheBin sc0 = lenVisibleCacheBin sc'"
      and sc2: "sceneStates s2 sceneId = Some sc2"
        "pickBuf sc2 = Some (paintNodes raster (rendered calls) 0 clearBuf)"
        "pickNameStates sc2 = map (\<lambda>n. n_state (nodeHeap s2 n) NAME) (rendered calls)"
      and hit: "hit = (case pickNameState_at (pickNameStates sc2)
                            (paintNodes raster (rendered calls) 0 clearBuf (x, y)) of
                      None \<Rightarrow> None
                    | Some nameState \<Rightarrow> Some (name_of (stHeap s2 nameState)))"
      by blast
    have "\<forall>n\<in>set (rendered calls). \<not> n_destroyed (nodeHeap s1 n)"
      using renderDrawList_walk_live [OF rd, of sc0] len sc'(2) by simp
    with destroyed have disj: "set (rendered calls) \<inter> set nodes = {}" by auto
    have "hit = None" if "\<forall>n\<in>set (rendered calls). \<not> raster n (x, y)"
    proof -
      have "paintNodes raster (rendered calls) 0 clearBuf (x, y) = (0, 0, 0, 0)"
        using that paintNodes_uncovered [of "rendered calls" raster "(x, y)" 0 clearBuf]
        by (simp add: clearBuf_def)
      then show ?thesis
        by (simp add: hit pickNameState_at_def pickIndex_def js_index_def)
    qed
    with sc2 disj
    show "\<exists>rs sc2. sceneStates s2 sceneId = Some sc2 \<and> set rs \<inter> set nodes = {}
                  \<and> pickBuf sc2 = Some (paintNodes raster rs 0 clearBuf)
                  \<and> pickNameStates sc2 = map (\<lambda>n. n_state (nodeHeap s2 n) NAME) rs
                  \<and> ((\<forall>n\<in>set rs. \<not> raster n (x, y)) \<longrightarrow> hit = None)"
      by (intro exI [of _ "rendered calls"] exI [of _ sc2]) simp
  next
    assume clean: "\<not> pickCallListDirty sc \<and> \<not> pickBufDirty sc \<and> pickBuf sc \<noteq> None"
    then obtain buf where buf: "pickBuf sc = Some buf" by auto
    have names: "name_of (stHeap s1 a) = name_of (stHeap s a)" for a
      by (simp add: name_of_def data)
    have "pick raster sceneId x y ts s =
           Inr (case pickNameState_at (pickNameStates sc) (buf (x, y)) of
                  None \<Rightarrow> None
                | Some nameState \<Rightarrow> Some (name_of (stHeap s nameState)), s)"
      using assms(2) clean buf by (intro pick_clean) simp_all
    moreover have "pick raster sceneId x y ts s1 =
           Inr (case pickNameState_at (pickNameStates sc') (buf (x, y)) of
                  None \<Rightarrow> None
                | Some nameState \<Rightarrow> Some (name_of (stHeap s1 nameState)), s1)"
      using sc' clean buf by (intro pick_clean) simp_all
    ultimately show "pick raster sceneId x y ts s1
              = (case pick raster sceneId x y ts s of
                   Inl e \<Rightarrow> Inl e
                 | Inr (hit, s') \<Rightarrow> Inr (hit, s1))"
      by (simp add: sc' names cong: option.case_cong)
  qed
qed

section \<open>The category setters\<close>


section \<open>What leaves programs and nodes alone\<close>












lemma flags_triv:
  "\<exists>d1 d2 d3. sc = sc\<lparr>stateSortDirty := d1, pickCallListDirty := d2, pickCallFuncsDirty := d3\<rparr>"
  by (rule exI [of _ "stateSortDirty sc"], rule exI [of _ "pickCallListDirty sc"],
      rule exI [of _ "pickCallFuncsDirty sc"]) simp






section \<open>The program cache\<close>



















section \<open>The cached scene hash\<close>























































section \<open>Programs and their reference counts\<close>


section \<open>The claims on a small scene\<close>

lemma bind_err_weak_cong: "m = m' \<Longrightarrow> bind_err m f = bind_err m' f"
  by simp

lemmas scene_eval =
  loaded_def tris_def open_scene_def js_index_def bind_err_def DEFAULT_FLAGS_def
  object_prototype_def
  createState_def default_cats_def null_state_def null_node_def init_drawlist_def
  sceneCreated_def forceStateSort_def soup_defaults_def bindScene_def fresh_state_def
  alloc_state_def set_typeMap_def getState_def releaseState_def updState_def setSoup_def
  tf_def arg_id_def arg_payload_def clips_hash_def setClips_def setColortrans_def setPlain_def
  setFlags_def setLayer_def setFrameBuf_def setMaterial_def setModelTransform_def
  setViewTransform_def setName_def setTag_def setRenderListeners_def setShaderParams_def
  setProjectionTransform_def lights_hash_def setLights_def morph_hash_def setMorph_def
  texture_hash_def setTexture_def setRenderer_def setShader_def soup_hash_def getSceneHash_def
  getProgram_def releaseProgram_def node_cats_def incCount_def js_array_set_def js_get_def
  stateId_neq_def reattach_def geo_hash_def new_node_def register_node_def attachNode_def
  setGeometry_def destroyNode_def removeGeometry_def layer_of_def flags_of_def tag_of_def
  name_of_def sortId_of_def js_set_length_def js_sort_bin_def stateSortBins_def route_def
  tag_match_def walkStep_def cacheStep_def renderTransparent_def renderDrawList_def
  renderFrame_def clearBuf_def pickPass_def pick_def pickColor_def pickIndex_def
  pickNameState_at_def Let_def


text \<open>
  One geometry is submitted, the scene is bound again for a full recompilation and the
  geometry is submitted again: the scene holds one display node, in its bin and in its
  maps, and the reference count of the program is 2.
\<close>

theorem refCount_counts_dropped_node:
  "run recompiled_calls (init_drawlist (\<lambda>h. False)) = Inr recompiled
   \<and> progNext recompiled = 1 \<and> p_refCount (progHeap recompiled 0) = 2
   \<and> lenBin (the (sceneStates recompiled ''s'')) = 1
   \<and> bin (the (sceneStates recompiled ''s'')) = [Some 1]
   \<and> nodeMap (the (sceneStates recompiled ''s'')) ''a'' = Some 1
   \<and> geoNodesMap (the (sceneStates recompiled ''s'')) ''a'' = Some (Some [1])
   \<and> n_program (nodeHeap recompiled 1) = 0
   \<and> counted_nodes recompiled 0 = [0, 1]"
proof -
  have "case run recompiled_calls loaded of Inl e \<Rightarrow> False
        | Inr s \<Rightarrow> progNext s = 1 \<and> p_refCount (progHeap s 0) = 2
            \<and> n_program (nodeHeap s 1) = 0 \<and> counted_nodes s 0 = [0, 1]
            \<and> (case sceneStates s ''s'' of None \<Rightarrow> False
                | Some sc \<Rightarrow> lenBin sc = 1 \<and> bin sc = [Some 1] \<and> nodeMap sc ''a'' = Some 1
                    \<and> geoNodesMap sc ''a'' = Some (Some [1]))"
    by (simp add: recompiled_calls_def scene_eval counted_nodes_def
          cong: bind_err_weak_cong let_weak_cong)
  then show ?thesis
    by (cases "run recompiled_calls loaded")
       (auto simp: recompiled_def loaded_def split: option.splits)
qed

text \<open>
  Claim C3, at a concrete input. One geometry is submitted under the flags of owner
  \<open>"f"\<close> and removed again. The count of the flags object falls from 1 to 0, but
  \<open>_releaseState\<close> deletes the key \<open>state.id\<close>, which is undefined, so the object stays in
  the state map under \<open>"f"\<close>; \<open>setFlags("f", ...)\<close> in a branch compilation then finds this
  object, with its old \<open>_stateId\<close>, and allocates nothing.
\<close>

theorem release_keeps_map_entry:
  "run flagged_box_calls loaded = Inr flagged_box
   \<and> soup flagged_box FLAGS = Some 20
   \<and> s_nodeCount (stHeap flagged_box 20) = 1
   \<and> s_stateId (stHeap flagged_box 20) = Some 0
   \<and> removeGeometry ''s'' (IdStr ''a'') flagged_box = Inr flagged_box_gone
   \<and> s_nodeCount (stHeap flagged_box_gone 20) = 0
   \<and> the (stateMap (the (sceneStates flagged_box_gone ''s'')) FLAGS) ''f'' = Some 20
   \<and> run flags_again_calls flagged_box_gone = Inr flags_again
   \<and> soup flags_again FLAGS = Some 20
   \<and> s_stateId (stHeap flags_again 20) = Some 0
   \<and> stNext flags_again = stNext flagged_box_gone
   \<and> nextStateId flags_again = nextStateId flagged_box_gone"
proof -
  have "case run flagged_box_calls loaded of Inl e \<Rightarrow> False
        | Inr s \<Rightarrow> soup s FLAGS = Some 20 \<and> s_nodeCount (stHeap s 20) = 1
           \<and> s_stateId (stHeap s 20) = Some 0
           \<and> (case removeGeometry ''s'' (IdStr ''a'') s of Inl e \<Rightarrow> False
              | Inr s1 \<Rightarrow> s_nodeCount (stHeap s1 20) = 0
                 \<and> (case sceneStates s1 ''s'' of None \<Rightarrow> False
                    | Some sc \<Rightarrow> (case stateMap sc FLAGS of None \<Rightarrow> False
                                 | Some m \<Rightarrow> m ''f'' = Some 20))
                 \<and> (case run flags_again_calls s1 of Inl e \<Rightarrow> False
                    | Inr s2 \<Rightarrow> soup s2 FLAGS = Some 20 \<and> s_stateId (stHeap s2 20) = Some 0
                       \<and> stNext s2 = stNext s1 \<and> nextStateId s2 = nextStateId s1))"
    by (simp add: flagged_box_calls_def flags_again_calls_def scene_eval
          cong: bind_err_weak_cong let_weak_cong)
  then obtain s where r: "run flagged_box_calls loaded = Inr s"
    and a: "soup s FLAGS = Some 20" "s_nodeCount (stHeap s 20) = 1" "s_stateId (stHeap s 20) = Some 0"
    and e1: "case removeGeometry ''s'' (IdStr ''a'') s of Inl e \<Rightarrow> False
              | Inr s1 \<Rightarrow> s_nodeCount (stHeap s1 20) = 0
                 \<and> (case sceneStates s1 ''s'' of None \<Rightarrow> False
                    | Some sc \<Rightarrow> (case stateMap sc FLAGS of None \<Rightarrow> False
                                 | Some m \<Rightarrow> m ''f'' = Some 20))
                 \<and> (case run flags_again_calls s1 of Inl e \<Rightarrow> False
                    | Inr s2 \<Rightarrow> soup s2 FLAGS = Some 20 \<and> s_stateId (stHeap s2 20) = Some 0
                       \<and> stNext s2 = stNext s1 \<and> nextStateId s2 = nextStateId s1)"
    by (cases "run flagged_box_calls loaded") auto
  from e1 obtain s1 where g: "removeGeometry ''s'' (IdStr ''a'') s = Inr s1"
    and b: "s_nodeCount (stHeap s1 20) = 0"
    and e2: "case sceneStates s1 ''s'' of None \<Rightarrow> False
             | Some sc \<Rightarrow> (case stateMap sc FLAGS of None \<Rightarrow> False | Some m \<Rightarrow> m ''f'' = Some 20)"
    and e3: "case run flags_again_calls s1 of Inl e \<Rightarrow> False
             | Inr s2 \<Rightarrow> soup s2 FLAGS = Some 20 \<and> s_stateId (stHeap s2 20) = Some 0
                \<and> stNext s2 = stNext s1 \<and> nextStateId s2 = nextStateId s1"
    by (cases "removeGeometry ''s'' (IdStr ''a'') s") auto
  from e2 have m: "the (stateMap (the (sceneStates s1 ''s'')) FLAGS) ''f'' = Some 20"
    by (auto split: option.splits)
  from e3 obtain s2 where f: "run flags_again_calls s1 = Inr s2"
    and c: "soup s2 FLAGS = Some 20" "s_stateId (stHeap s2 20) = Some 0"
      "stNext s2 = stNext s1" "nextStateId s2 = nextStateId s1"
    by (cases "run flags_again_calls s1") auto
  have eq: "flagged_box = s" "flagged_box_gone = s1" "flags_again = s2"
    using r g f by (simp_all add: flagged_box_def flagged_box_gone_def flags_again_def)
  from r a g b m f c show ?thesis
    unfolding eq by simp
qed

text \<open>
  A wall in a layer of priority 5 and then a pane of glass in the default layer, of
  priority 0, both with program 0: the keys are 500000 and 0, and sorting puts the glass
  before the wall.
\<close>

theorem sort_key_layer_program_witness:
  "run wall_glass_calls loaded = Inr wall_glass
   \<and> stateSortBins ''s'' wall_glass = Inr wall_glass_sorted
   \<and> bin (the (sceneStates wall_glass ''s'')) = [Some 0, Some 1]
   \<and> stateSortIDsDirty (the (sceneStates wall_glass ''s''))
   \<and> n_sortId (nodeHeap wall_glass_sorted 0) = 500000
   \<and> n_sortId (nodeHeap wall_glass_sorted 1) = 0
   \<and> bin (the (sceneStates wall_glass_sorted ''s'')) = [Some 1, Some 0]
   \<and> \<not> stateSortIDsDirty (the (sceneStates wall_glass_sorted ''s''))
   \<and> lenVisibleCacheBin (the (sceneStates wall_glass_sorted ''s'')) = 0"
proof -
  have "case run wall_glass_calls loaded of Inl e \<Rightarrow> False
        | Inr s \<Rightarrow>
           (case sceneStates s ''s'' of None \<Rightarrow> False
            | Some sc \<Rightarrow> bin sc = [Some 0, Some 1] \<and> stateSortIDsDirty sc)
           \<and> map (\<lambda>n. (layer_of (stHeap s (n_state (nodeHeap s n) LAYER)),
                         p_id (progHeap s (n_program (nodeHeap s n))))) [0, 1]
               = [(Some \<lparr>ly_priority = 5, ly_enabled = True\<rparr>, 0),
                  (Some \<lparr>ly_priority = 0, ly_enabled = True\<rparr>, 0)]
           \<and> (case stateSortBins ''s'' s of Inl e \<Rightarrow> False
              | Inr s' \<Rightarrow> (case sceneStates s' ''s'' of None \<Rightarrow> False
                          | Some sc' \<Rightarrow> bin sc' = [Some 1, Some 0]))"
    by (simp add: wall_glass_calls_def scene_eval cong: bind_err_weak_cong let_weak_cong)
  then obtain s where r: "run wall_glass_calls loaded = Inr s"
    and e1: "case sceneStates s ''s'' of None \<Rightarrow> False
            | Some sc \<Rightarrow> bin sc = [Some 0, Some 1] \<and> stateSortIDsDirty sc"
    and l: "layer_of (stHeap s (n_state (nodeHeap s 0) LAYER)) = Some \<lparr>ly_priority = 5, ly_enabled = True\<rparr>"
      "layer_of (stHeap s (n_state (nodeHeap s 1) LAYER)) = Some \<lparr>ly_priority = 0, ly_enabled = True\<rparr>"
      "p_id (progHeap s (n_program (nodeHeap s 0))) = 0"
      "p_id (progHeap s (n_program (nodeHeap s 1))) = 0"
    and e2: "case stateSortBins ''s'' s of Inl e \<Rightarrow> False
            | Inr s' \<Rightarrow> (case sceneStates s' ''s'' of None \<Rightarrow> False
                        | Some sc' \<Rightarrow> bin sc' = [Some 1, Some 0])"
    by (cases "run wall_glass_calls loaded") auto
  from e1 obtain sc where sc: "sceneStates s ''s'' = Some sc" "bin sc = [Some 0, Some 1]"
      "stateSortIDsDirty sc"
    by (cases "sceneStates s ''s''") auto
  from e2 obtain s' where f: "stateSortBins ''s'' s = Inr s'"
    and e3: "case sceneStates s' ''s'' of None \<Rightarrow> False | Some sc' \<Rightarrow> bin sc' = [Some 1, Some 0]"
    by (cases "stateSortBins ''s'' s") auto
  from e3 obtain sc1 where sc1: "sceneStates s' ''s'' = Some sc1" "bin sc1 = [Some 1, Some 0]"
    by (cases "sceneStates s' ''s''") auto
  have eq: "wall_glass = s" "wall_glass_sorted = s'"
    using r f by (simp_all add: wall_glass_def wall_glass_sorted_def)
  from sort_key_layer_program [OF f sc(1)] sc sc1
  have keys: "\<forall>n. Some n \<in> set (bin sc) \<longrightarrow>
                (\<exists>core. layer_of (stHeap s (n_state (nodeHeap s n) LAYER)) = Some core
                   \<and> n_sortId (nodeHeap s' n)
                       = ly_priority core * 100000 + p_id (progHeap s (n_program (nodeHeap s n))))"
    and clean: "\<not> stateSortIDsDirty sc1" "lenVisibleCacheBin sc1 = 0"
    by auto
  from keys sc(2) l have "n_sortId (nodeHeap s' 0) = 500000" "n_sortId (nodeHeap s' 1) = 0"
    by auto
  with r f sc sc1 clean show ?thesis
    unfolding eq by simp
qed

text \<open>
  Two geometries submitted under the same state, so in one layer and with one program,
  but each with a geometry state of its own: \<open>_stateSortBins\<close> gives both nodes the key 0,
  where the tiers of \<open>_createStateStateSortIDsNew\<close> would tell them apart.
\<close>

theorem sort_key_ignores_geometry:
  "run boxes_calls loaded = Inr boxes
   \<and> bin (the (sceneStates boxes ''s'')) = [Some 0, Some 1]
   \<and> stateSortIDsDirty (the (sceneStates boxes ''s''))
   \<and> n_state (nodeHeap boxes 0) GEO \<noteq> n_state (nodeHeap boxes 1) GEO
   \<and> createStateStateSortIDsNew boxes [0, 1] 0 = Some 1
   \<and> createStateStateSortIDsNew boxes [0, 1] 1 = Some 0
   \<and> stateSortBins ''s'' boxes = Inr boxes_sorted
   \<and> n_sortId (nodeHeap boxes_sorted 0) = 0
   \<and> n_sortId (nodeHeap boxes_sorted 1) = 0"
proof -
  have "case run boxes_calls loaded of Inl e \<Rightarrow> False
        | Inr s \<Rightarrow>
           (case sceneStates s ''s'' of None \<Rightarrow> False
            | Some sc \<Rightarrow> bin sc = [Some 0, Some 1] \<and> stateSortIDsDirty sc)
           \<and> n_state (nodeHeap s 0) GEO \<noteq> n_state (nodeHeap s 1) GEO
           \<and> map (createStateStateSortIDsNew s [0, 1]) [0, 1] = [Some 1, Some 0]
           \<and> (case stateSortBins ''s'' s of Inl e \<Rightarrow> False
              | Inr s' \<Rightarrow> map (\<lambda>n. n_sortId (nodeHeap s' n)) [0, 1] = [0, 0])"
    by (simp add: boxes_calls_def scene_eval createStateStateSortIDsNew_def sortIdNew_def
          sortWalkStep_def sort_walk0_def cong: bind_err_weak_cong let_weak_cong)
  then obtain s where r: "run boxes_calls loaded = Inr s"
    and e1: "case sceneStates s ''s'' of None \<Rightarrow> False
            | Some sc \<Rightarrow> bin sc = [Some 0, Some 1] \<and> stateSortIDsDirty sc"
    and g: "n_state (nodeHeap s 0) GEO \<noteq> n_state (nodeHeap s 1) GEO"
    and n: "createStateStateSortIDsNew s [0, 1] 0 = Some 1"
      "createStateStateSortIDsNew s [0, 1] 1 = Some 0"
    and e2: "case stateSortBins ''s'' s of Inl e \<Rightarrow> False
            | Inr s' \<Rightarrow> map (\<lambda>n. n_sortId (nodeHeap s' n)) [0, 1] = [0, 0]"
    by (cases "run boxes_calls loaded") auto
  from e1 obtain sc where sc: "sceneStates s ''s'' = Some sc" "bin sc = [Some 0, Some 1]"
      "stateSortIDsDirty sc"
    by (cases "sceneStates s ''s''") auto
  from e2 obtain s' where f: "stateSortBins ''s'' s = Inr s'"
    and k: "n_sortId (nodeHeap s' 0) = 0" "n_sortId (nodeHeap s' 1) = 0"
    by (cases "stateSortBins ''s'' s") auto
  have eq: "boxes = s" "boxes_sorted = s'"
    using r f by (simp_all add: boxes_def boxes_sorted_def)
  from r sc g n f k show ?thesis
    unfolding eq by simp
qed

text \<open>
  The scene hash of the box: the default colour transform hashes to \<open>"f"\<close>, the geometry
  to \<open>"tffftri"\<close>, every other state to the empty string.
\<close>

theorem scene_hash_order_witness:
  "run box_calls loaded = Inr box \<and> states box = Some ''s''
   \<and> canvasId (the (sceneStates box ''s'')) = ''c''
   \<and> map (soup box) [CLIPS, COLORTRANS, LIGHTS, MORPH, TEXTURE, SHADER, RENDERER, GEO]
       = [Some 0, Some 1, Some 5, Some 7, Some 12, Some 18, Some 13, Some 21]
   \<and> getSceneHash box = Inr ''c;;f;;;;;;tffftri''"
proof -
  have "case run box_calls loaded of Inl e \<Rightarrow> False
        | Inr s \<Rightarrow> states s = Some ''s''
           \<and> (case sceneStates s ''s'' of None \<Rightarrow> False | Some sc \<Rightarrow> canvasId sc = ''c'')
           \<and> map (soup s) [CLIPS, COLORTRANS, LIGHTS, MORPH, TEXTURE, SHADER, RENDERER, GEO]
               = [Some 0, Some 1, Some 5, Some 7, Some 12, Some 18, Some 13, Some 21]
           \<and> map (\<lambda>a. js_str (s_hash (stHeap s a))) [0, 1, 5, 7, 12, 18, 13, 21]
               = [[], ''f'', [], [], [], [], [], ''tffftri'']"
    by (simp add: box_calls_def scene_eval cong: bind_err_weak_cong let_weak_cong)
  then obtain sc where r: "run box_calls loaded = Inr box"
    and b: "states box = Some ''s''" and sc: "sceneStates box ''s'' = Some sc" "canvasId sc = ''c''"
    and p: "soup box CLIPS = Some 0" "soup box COLORTRANS = Some 1" "soup box LIGHTS = Some 5"
      "soup box MORPH = Some 7" "soup box TEXTURE = Some 12" "soup box SHADER = Some 18"
      "soup box RENDERER = Some 13" "soup box GEO = Some 21"
    and h: "map (\<lambda>a. js_str (s_hash (stHeap box a))) [0, 1, 5, 7, 12, 18, 13, 21]
              = [[], ''f'', [], [], [], [], [], ''tffftri'']"
    by (auto simp: box_def split: sum.splits option.splits)
  from scene_hash_order [OF b sc(1) p] h sc(2)
  have "getSceneHash box = Inr ''c;;f;;;;;;tffftri''"
    by simp
  with r b sc p show ?thesis
    by simp
qed

text \<open>
  The wall is opaque and the glass transparent. The glass has the smaller sort key and
  comes first in the sorted bin, and is drawn after the wall, with blending enabled.
\<close>

theorem transparent_after_opaque_witness:
  "run wall_glass_calls loaded = Inr wall_glass
   \<and> renderFrame None wall_glass = Inr wall_glass_frame
   \<and> snd wall_glass_frame = [RenderNode 0, EnableBlend, BlendFunc, RenderNode 1, DisableBlend]
   \<and> n_sortId (nodeHeap (fst wall_glass_frame) 1) < n_sortId (nodeHeap (fst wall_glass_frame) 0)
   \<and> (\<exists>vis. snd wall_glass_frame = opaque_then_transparent wall_glass vis)
   \<and> renderDrawList ''s'' False None wall_glass = Inr wall_glass_pass
   \<and> (\<exists>vis. snd wall_glass_pass = opaque_then_transparent wall_glass vis)"
proof -
  have "case run wall_glass_calls loaded of Inl e \<Rightarrow> False
        | Inr s \<Rightarrow>
           (case renderFrame None s of Inl e \<Rightarrow> False
            | Inr (s', calls) \<Rightarrow>
                calls = [RenderNode 0, EnableBlend, BlendFunc, RenderNode 1, DisableBlend]
                \<and> n_sortId (nodeHeap s' 1) < n_sortId (nodeHeap s' 0))
           \<and> \<not> isl (renderDrawList ''s'' False None s)"
    by (simp add: wall_glass_calls_def scene_eval cong: bind_err_weak_cong let_weak_cong)
  then obtain s where r: "run wall_glass_calls loaded = Inr s"
    and e1: "case renderFrame None s of Inl e \<Rightarrow> False
            | Inr (s', calls) \<Rightarrow>
                calls = [RenderNode 0, EnableBlend, BlendFunc, RenderNode 1, DisableBlend]
                \<and> n_sortId (nodeHeap s' 1) < n_sortId (nodeHeap s' 0)"
    and e2: "\<not> isl (renderDrawList ''s'' False None s)"
    by (cases "run wall_glass_calls loaded") auto
  from e1 obtain s' calls where f: "renderFrame None s = Inr (s', calls)"
    and c: "calls = [RenderNode 0, EnableBlend, BlendFunc, RenderNode 1, DisableBlend]"
    and k: "n_sortId (nodeHeap s' 1) < n_sortId (nodeHeap s' 0)"
    by (cases "renderFrame None s") auto
  from e2 obtain s'' calls' where p: "renderDrawList ''s'' False None s = Inr (s'', calls')"
    by (cases "renderDrawList ''s'' False None s") auto
  have eq: "wall_glass = s" "wall_glass_frame = (s', calls)" "wall_glass_pass = (s'', calls')"
    using r f p by (simp_all add: wall_glass_def wall_glass_frame_def wall_glass_pass_def)
  from transparent_after_opaque [of "''s''" None s s' calls] f
  have 1: "\<exists>vis. calls = opaque_then_transparent s vis"
    by blast
  from transparent_after_opaque [of "''s''" None s s'' calls'] p
  have 2: "\<exists>vis. calls' = opaque_then_transparent s vis"
    by blast
  from r f c k p 1 2 show ?thesis
    unfolding eq by simp
qed

text \<open>
  The box is removed before anything was picked, so the pick flags are still set: the
  pick renders its pass, which skips the box, and is no hit.
\<close>

theorem pick_after_remove_witness:
  "run box_calls loaded = Inr box
   \<and> removeGeometry ''s'' (IdStr ''a'') box = Inr box_gone
   \<and> geoNodesMap (the (sceneStates box ''s'')) (key_of (IdStr ''a'')) = Some (Some [0])
   \<and> pickCallListDirty (the (sceneStates box ''s''))
   \<and> pick only_box ''s'' 0 0 None box_gone
        = Inr (None, snd (projr (pick only_box ''s'' 0 0 None box_gone)))"
proof -
  have "case run box_calls loaded of Inl e \<Rightarrow> False
        | Inr s \<Rightarrow> (case sceneStates s ''s'' of None \<Rightarrow> False
             | Some sc \<Rightarrow> geoNodesMap sc ''a'' = Some (Some [0]) \<and> pickCallListDirty sc)
           \<and> (case removeGeometry ''s'' (IdStr ''a'') s of Inl e \<Rightarrow> False
              | Inr s1 \<Rightarrow> \<not> isl (pick only_box ''s'' 0 0 None s1))"
    by (simp add: box_calls_def scene_eval cong: bind_err_weak_cong let_weak_cong)
  then obtain sc hit s2 where r: "run box_calls loaded = Inr box"
    and sc: "sceneStates box ''s'' = Some sc"
    and g: "geoNodesMap sc (key_of (IdStr ''a'')) = Some (Some [0])" and d: "pickCallListDirty sc"
    and f: "removeGeometry ''s'' (IdStr ''a'') box = Inr box_gone"
    and p: "pick only_box ''s'' 0 0 None box_gone = Inr (hit, s2)"
    by (cases "pick only_box ''s'' 0 0 None box_gone")
       (auto simp: box_def box_gone_def split: sum.splits option.splits)
  from pick_after_remove [OF f sc g, of only_box 0 0 None] d p
  obtain rs where rs: "set rs \<inter> set [0] = {}"
    and h: "(\<forall>n\<in>set rs. \<not> only_box n (0, 0)) \<longrightarrow> hit = None"
    by blast
  have "n \<noteq> 0" if "n \<in> set rs" for n
  proof
    assume "n = 0"
    with that have "0 \<in> set rs \<inter> set [0]"
      by simp
    with rs show False
      by simp
  qed
  with h have "hit = None"
    by (simp add: only_box_def)
  with r sc g d f p show ?thesis
    by simp
qed

text \<open>
  A box named \<open>"box"\<close> is picked, then removed, then picked again at the same position:
  the second pick finds the flags clear, renders nothing and hits the box again.
\<close>

theorem pick_hits_removed_node:
  "run box_calls loaded = Inr box
   \<and> pick only_box ''s'' 0 0 None box = Inr (Some (Some ''box''), box_picked)
   \<and> removeGeometry ''s'' (IdStr ''a'') box_picked = Inr box_picked_gone
   \<and> n_destroyed (nodeHeap box_picked_gone 0)
   \<and> pick only_box ''s'' 0 0 None box_picked_gone
        = Inr (Some (Some ''box''), snd (projr (pick only_box ''s'' 0 0 None box_picked_gone)))"
proof -
  have "case run box_calls loaded of Inl e \<Rightarrow> False
        | Inr s \<Rightarrow>
           (case pick only_box ''s'' 0 0 None s of Inl e \<Rightarrow> False
            | Inr (hit, s1) \<Rightarrow> hit = Some (Some ''box'')
               \<and> (case removeGeometry ''s'' (IdStr ''a'') s1 of Inl e \<Rightarrow> False
                  | Inr s2 \<Rightarrow> n_destroyed (nodeHeap s2 0)
                     \<and> (case pick only_box ''s'' 0 0 None s2 of Inl e \<Rightarrow> False
                        | Inr (hit', s3) \<Rightarrow> hit' = Some (Some ''box''))))"
    by (simp add: box_calls_def scene_eval only_box_def cong: bind_err_weak_cong let_weak_cong)
  then obtain s where r: "run box_calls loaded = Inr s"
    and e1: "case pick only_box ''s'' 0 0 None s of Inl e \<Rightarrow> False
            | Inr (hit, s1) \<Rightarrow> hit = Some (Some ''box'')
               \<and> (case removeGeometry ''s'' (IdStr ''a'') s1 of Inl e \<Rightarrow> False
                  | Inr s2 \<Rightarrow> n_destroyed (nodeHeap s2 0)
                     \<and> (case pick only_box ''s'' 0 0 None s2 of Inl e \<Rightarrow> False
                        | Inr (hit', s3) \<Rightarrow> hit' = Some (Some ''box'')))"
    by (cases "run box_calls loaded") auto
  from e1 obtain s1 where p1: "pick only_box ''s'' 0 0 None s = Inr (Some (Some ''box''), s1)"
    and e2: "case removeGeometry ''s'' (IdStr ''a'') s1 of Inl e \<Rightarrow> False
            | Inr s2 \<Rightarrow> n_destroyed (nodeHeap s2 0)
               \<and> (case pick only_box ''s'' 0 0 None s2 of Inl e \<Rightarrow> False
                  | Inr (hit', s3) \<Rightarrow> hit' = Some (Some ''box''))"
    by (cases "pick only_box ''s'' 0 0 None s") auto
  from e2 obtain s2 where g: "removeGeometry ''s'' (IdStr ''a'') s1 = Inr s2"
    and d: "n_destroyed (nodeHeap s2 0)"
    and e3: "case pick only_box ''s'' 0 0 None s2 of Inl e \<Rightarrow> False
            | Inr (hit', s3) \<Rightarrow> hit' = Some (Some ''box'')"
    by (cases "removeGeometry ''s'' (IdStr ''a'') s1") auto
  from e3 obtain s3 where p2: "pick only_box ''s'' 0 0 None s2 = Inr (Some (Some ''box''), s3)"
    by (cases "pick only_box ''s'' 0 0 None s2") auto
  have "box = s" "box_picked = s1" "box_picked_gone = s2"
    using r p1 g by (simp_all add: box_def box_picked_def box_picked_gone_def)
  with r p1 g d p2 show ?thesis
    by simp
qed



text \<open>
  \<open>setFlags("toString", flags)\<close> in a branch recompilation of the scene: the type map has
  no entry of its own under \<open>"toString"\<close>, and \<open>_getState\<close> finds the inherited function.
\<close>

lemma setFlags_inherited_id:
  "run (open_scene @ [BindScene ''s'' (Some COMPILE_BRANCH) False]) loaded = Inr branch_open
   \<and> setFlags (Some (IdStr ''toString'', None)) branch_open = Inl (Inherited ''toString'')"
proof -
  have "case run (open_scene @ [BindScene ''s'' (Some COMPILE_BRANCH) False]) loaded of
          Inl e \<Rightarrow> False
        | Inr s \<Rightarrow> setFlags (Some (IdStr ''toString'', None)) s = Inl (Inherited ''toString'')"
    by (simp add: scene_eval cong: bind_err_weak_cong let_weak_cong)
  then show ?thesis
    by (cases "run (open_scene @ [BindScene ''s'' (Some COMPILE_BRANCH) False]) loaded")
       (auto simp: branch_open_def)
qed

text \<open>
  A frame of the scene just bound returns and leaves no scene bound; the next
  \<open>renderFrame\<close> throws.
\<close>

theorem renderFrame_unbinds_witness:
  "run open_scene loaded = Inr scene_open
   \<and> renderFrame None scene_open = Inr (projr (renderFrame None scene_open))
   \<and> states scene_open = Some ''s''
   \<and> states (fst (projr (renderFrame None scene_open))) = None
   \<and> renderFrame None (fst (projr (renderFrame None scene_open)))
        = Inl (FatalError ''No scene bound'')"
proof -
  have "case run open_scene loaded of Inl e \<Rightarrow> False
        | Inr s \<Rightarrow> states s = Some ''s'' \<and> \<not> isl (renderFrame None s)"
    by (simp add: scene_eval cong: bind_err_weak_cong let_weak_cong)
  then obtain s' calls where r: "run open_scene loaded = Inr scene_open"
    and b: "states scene_open = Some ''s''"
    and f: "renderFrame None scene_open = Inr (s', calls)"
    by (cases "renderFrame None scene_open") (auto simp: scene_open_def split: sum.splits)
  from renderFrame_unbinds [OF f, of None] r b f show ?thesis
    by simp
qed


text \<open>
  On the scene with the box, after a frame: no node is registered under \<open>"constructor"\<close>
  or \<open>"toString"\<close>, yet \<open>removeGeometry\<close> throws for the one and, for the other, writes a
  null entry into the geometry map and resets the cache of visible nodes.
\<close>

theorem removeGeometry_inherited_id:
  "run (box_calls @ [RenderFrame None]) loaded = Inr box_shown
   \<and> geoNodesMap (the (sceneStates box_shown ''s'')) (key_of (IdStr ''constructor'')) = None
   \<and> removeGeometry ''s'' (IdStr ''constructor'') box_shown = Inl TypeError
   \<and> geoNodesMap (the (sceneStates box_shown ''s'')) (key_of (IdStr ''toString'')) = None
   \<and> lenVisibleCacheBin (the (sceneStates box_shown ''s'')) = 1
   \<and> removeGeometry ''s'' (IdStr ''toString'') box_shown = Inr box_shown_toString
   \<and> geoNodesMap (the (sceneStates box_shown_toString ''s'')) (key_of (IdStr ''toString'')) = Some None
   \<and> lenVisibleCacheBin (the (sceneStates box_shown_toString ''s'')) = 0"
proof -
  have "case run (box_calls @ [RenderFrame None]) loaded of Inl e \<Rightarrow> False
        | Inr s \<Rightarrow>
           (case sceneStates s ''s'' of None \<Rightarrow> False
            | Some sc \<Rightarrow> geoNodesMap sc ''constructor'' = None
                \<and> geoNodesMap sc ''toString'' = None \<and> lenVisibleCacheBin sc = 1)
           \<and> removeGeometry ''s'' (IdStr ''constructor'') s = Inl TypeError
           \<and> (case removeGeometry ''s'' (IdStr ''toString'') s of Inl e \<Rightarrow> False
               | Inr s' \<Rightarrow>
                  (case sceneStates s' ''s'' of None \<Rightarrow> False
                   | Some sc' \<Rightarrow> geoNodesMap sc' ''toString'' = Some None
                       \<and> lenVisibleCacheBin sc' = 0))"
    by (simp add: box_calls_def scene_eval cong: bind_err_weak_cong let_weak_cong)
  then obtain s where r: "run (box_calls @ [RenderFrame None]) loaded = Inr s"
    and e1: "case sceneStates s ''s'' of None \<Rightarrow> False
            | Some sc \<Rightarrow> geoNodesMap sc ''constructor'' = None
                \<and> geoNodesMap sc ''toString'' = None \<and> lenVisibleCacheBin sc = 1"
    and c: "removeGeometry ''s'' (IdStr ''constructor'') s = Inl TypeError"
    and e2: "case removeGeometry ''s'' (IdStr ''toString'') s of Inl e \<Rightarrow> False
               | Inr s' \<Rightarrow>
                  (case sceneStates s' ''s'' of None \<Rightarrow> False
                   | Some sc' \<Rightarrow> geoNodesMap sc' ''toString'' = Some None
                       \<and> lenVisibleCacheBin sc' = 0)"
    by (cases "run (box_calls @ [RenderFrame None]) loaded") auto
  from e1 obtain sc where sc: "sceneStates s ''s'' = Some sc"
    and g: "geoNodesMap sc ''constructor'' = None" "geoNodesMap sc ''toString'' = None"
      "lenVisibleCacheBin sc = 1"
    by (cases "sceneStates s ''s''") auto
  from e2 obtain s' where t: "removeGeometry ''s'' (IdStr ''toString'') s = Inr s'"
    and e3: "case sceneStates s' ''s'' of None \<Rightarrow> False
             | Some sc' \<Rightarrow> geoNodesMap sc' ''toString'' = Some None \<and> lenVisibleCacheBin sc' = 0"
    by (cases "removeGeometry ''s'' (IdStr ''toString'') s") auto
  from e3 obtain sc' where sc': "sceneStates s' ''s'' = Some sc'"
    and g': "geoNodesMap sc' ''toString'' = Some None" "lenVisibleCacheBin sc' = 0"
    by (cases "sceneStates s' ''s''") auto
  have "box_shown = s" "box_shown_toString = s'"
    using r t by (simp_all add: box_shown_def box_shown_toString_def)
  with r sc g c t sc' g' show ?thesis
    by simp
qed

end
